theory Spec2Isabelle
  imports Main "HOL-Library.AList"
begin

section \<open>JavaScript values\<close>

text \<open>
  The login-flow module \<^verbatim>\<open>src/utils/oidc/authorize.ts\<close> is TypeScript; its types are erased
  at run time, so the checks it makes (truthiness, \<^verbatim>\<open>typeof\<close>, \<^verbatim>\<open>=== undefined\<close>) are modelled
  on run-time values. Numbers are kept as integers: no check of the module tells two
  numbers apart except by being zero or not. A JavaScript object is its list of
  properties, in insertion order.
\<close>

datatype jsval =
    JUndefined
  | JNull
  | JBool bool
  | JNum int
  | JString string
  | JArray "jsval list"
  | JObject "(string \<times> jsval) list"

type_synonym jsobject = "(string \<times> jsval) list"

text \<open>\<^verbatim>\<open>!!v\<close>: the values that count as true in a condition.\<close>

fun truthy :: "jsval \<Rightarrow> bool" where
  "truthy JUndefined = False"
| "truthy JNull = False"
| "truthy (JBool b) = b"
| "truthy (JNum n) = (n \<noteq> 0)"
| "truthy (JString s) = (s \<noteq> [])"
| "truthy (JArray xs) = True"
| "truthy (JObject ps) = True"

text \<open>\<^verbatim>\<open>typeof v\<close>.\<close>

fun typeof :: "jsval \<Rightarrow> string" where
  "typeof JUndefined = ''undefined''"
| "typeof JNull = ''object''"
| "typeof (JBool b) = ''boolean''"
| "typeof (JNum n) = ''number''"
| "typeof (JString s) = ''string''"
| "typeof (JArray xs) = ''object''"
| "typeof (JObject ps) = ''object''"

text \<open>\<^verbatim>\<open>obj[key]\<close>: a property that is not there reads as \<^verbatim>\<open>undefined\<close>.\<close>

definition getProperty :: "jsobject \<Rightarrow> string \<Rightarrow> jsval" where
  "getProperty obj key = (case map_of obj key of None \<Rightarrow> JUndefined | Some v \<Rightarrow> v)"

text \<open>A value of type \<^verbatim>\<open>string | null\<close> or \<^verbatim>\<open>string | undefined\<close> as a run-time value.\<close>

definition orNull :: "string option \<Rightarrow> jsval" where
  "orNull v = (case v of None \<Rightarrow> JNull | Some s \<Rightarrow> JString s)"

definition orUndefined :: "string option \<Rightarrow> jsval" where
  "orUndefined v = (case v of None \<Rightarrow> JUndefined | Some s \<Rightarrow> JString s)"

section \<open>Session storage\<close>

text \<open>
  \<^verbatim>\<open>window.sessionStorage\<close> maps string keys to string values; \<^verbatim>\<open>getItem\<close> answers
  \<^verbatim>\<open>null\<close> (here \<open>None\<close>) for a key that is not stored.
\<close>

type_synonym Storage = "string \<rightharpoonup> string"

definition getItem :: "Storage \<Rightarrow> string \<Rightarrow> string option" where
  "getItem storage key = storage key"

definition setItem :: "Storage \<Rightarrow> string \<Rightarrow> string \<Rightarrow> Storage" where
  "setItem storage key v = storage(key \<mapsto> v)"

section \<open>The authorization-code login flow (authorize.ts)\<close>

text \<open>
  The members of the enum \<^verbatim>\<open>OidcClientError\<close> that the module throws (the enum is declared
  in \<^verbatim>\<open>./error\<close>), and what a call can end with: \<^verbatim>\<open>new Error(member)\<close>, the
  \<^verbatim>\<open>SyntaxError\<close> of \<^verbatim>\<open>JSON.parse\<close>, or whatever an awaited function of the external
  client library rejects with.
\<close>

datatype OidcClientError = StoredParamsNotFound | InvalidQueryParameters

datatype 'e thrown = Error OidcClientError | SyntaxError | Rejected 'e

text \<open>
  \<^verbatim>\<open>AuthorizationParams\<close> is the result type of the client library's
  \<^verbatim>\<open>generateAuthorizationParams\<close>: five strings.
\<close>

record AuthorizationParams =
  ap_redirectUri :: string
  ap_state :: string
  ap_nonce :: string
  ap_codeVerifier :: string
  ap_scope :: string

text \<open>
  \<^verbatim>\<open>storeAuthorizationParams\<close> (lines 35-51). \<open>stringify\<close> is the platform's
  \<^verbatim>\<open>JSON.stringify\<close> on the configuration object; \<^verbatim>\<open>identityServerUrl?: string\<close> is an
  optional argument.
\<close>

definition storeAuthorizationParams ::
  "(jsval \<Rightarrow> string) \<Rightarrow> AuthorizationParams \<Rightarrow> jsobject \<Rightarrow> string \<Rightarrow> string \<Rightarrow> string option
    \<Rightarrow> Storage \<Rightarrow> Storage" where
  "storeAuthorizationParams stringify authorizationParams delegatedAuthConfig clientId homeserverUrl
      identityServerUrl sessionStorage =
    (let redirectUri = ap_redirectUri authorizationParams;
         state = ap_state authorizationParams;
         nonce = ap_nonce authorizationParams;
         codeVerifier = ap_codeVerifier authorizationParams;
         s1 = setItem sessionStorage (''oidc_'' @ state @ ''_nonce'') nonce;
         s2 = setItem s1 (''oidc_'' @ state @ ''_redirectUri'') redirectUri;
         s3 = setItem s2 (''oidc_'' @ state @ ''_codeVerifier'') codeVerifier;
         s4 = setItem s3 (''oidc_'' @ state @ ''_clientId'') clientId;
         s5 = setItem s4 (''oidc_'' @ state @ ''_delegatedAuthConfig'')
                (stringify (JObject delegatedAuthConfig));
         s6 = setItem s5 (''oidc_'' @ state @ ''_homeserverUrl'') homeserverUrl
     in if truthy (orUndefined identityServerUrl)
        then setItem s6 (''oidc_'' @ state @ ''_identityServerUrl'') (the identityServerUrl)
        else s6)"

text \<open>\<^verbatim>\<open>validateStoredAuthorizationParams\<close> (lines 66-76).\<close>

definition requiredStringProperties :: "string list" where
  "requiredStringProperties =
     [''nonce'', ''redirectUri'', ''codeVerifier'', ''clientId'', ''homeserverUrl'']"

definition validateStoredAuthorizationParams :: "jsobject \<Rightarrow> 'e thrown + jsobject" where
  "validateStoredAuthorizationParams params =
    (if list_all (\<lambda>key. truthy (getProperty params key) \<and> typeof (getProperty params key) = ''string'')
          requiredStringProperties
        \<and> (getProperty params ''identityServerUrl'' = JUndefined
             \<or> typeof (getProperty params ''identityServerUrl'') = ''string'')
        \<and> truthy (getProperty params ''delegatedAuthConfig'')
     then Inr params
     else Inl (Error StoredParamsNotFound))"

text \<open>
  \<^verbatim>\<open>retrieveAuthorizationParams\<close> (lines 78-96). \<open>parse\<close> is the platform's
  \<^verbatim>\<open>JSON.parse\<close>, \<open>None\<close> where it throws its \<^verbatim>\<open>SyntaxError\<close>. The object literal is
  evaluated before \<^verbatim>\<open>validateStoredAuthorizationParams\<close> is called, so a text that does
  not parse ends the call before any validation.
\<close>

definition retrieveAuthorizationParams ::
  "(string \<Rightarrow> jsval option) \<Rightarrow> Storage \<Rightarrow> string \<Rightarrow> 'e thrown + jsobject" where
  "retrieveAuthorizationParams parse sessionStorage state =
    (let nonce = getItem sessionStorage (''oidc_'' @ state @ ''_nonce'');
         redirectUri = getItem sessionStorage (''oidc_'' @ state @ ''_redirectUri'');
         codeVerifier = getItem sessionStorage (''oidc_'' @ state @ ''_codeVerifier'');
         clientId = getItem sessionStorage (''oidc_'' @ state @ ''_clientId'');
         homeserverUrl = getItem sessionStorage (''oidc_'' @ state @ ''_homeserverUrl'');
         identityServerUrl =
           orUndefined (getItem sessionStorage (''oidc_'' @ state @ ''_identityServerUrl''));
         delegatedAuthConfig = getItem sessionStorage (''oidc_'' @ state @ ''_delegatedAuthConfig'')
     in case (if truthy (orNull delegatedAuthConfig) then parse (the delegatedAuthConfig)
              else Some JUndefined) of
          None \<Rightarrow> Inl SyntaxError
        | Some parsed \<Rightarrow>
            validateStoredAuthorizationParams
              [(''nonce'', orNull nonce),
               (''redirectUri'', orNull redirectUri),
               (''codeVerifier'', orNull codeVerifier),
               (''clientId'', orNull clientId),
               (''homeserverUrl'', orNull homeserverUrl),
               (''identityServerUrl'', identityServerUrl),
               (''delegatedAuthConfig'', parsed)])"

text \<open>\<^verbatim>\<open>getCodeAndStateFromQueryParams\<close> (lines 134-142).\<close>

fun ofString :: "jsval \<Rightarrow> string" where
  "ofString (JString s) = s"
| "ofString v = []"

definition getCodeAndStateFromQueryParams :: "jsobject \<Rightarrow> 'e thrown + string \<times> string" where
  "getCodeAndStateFromQueryParams queryParams =
    (let code = getProperty queryParams ''code'';
         state = getProperty queryParams ''state''
     in if \<not> truthy code \<or> typeof code \<noteq> ''string'' \<or> \<not> truthy state \<or> typeof state \<noteq> ''string''
        then Inl (Error InvalidQueryParameters)
        else Inr (ofString code, ofString state))"

text \<open>
  \<^verbatim>\<open>completeOidcLogin\<close> (lines 150-168). \<open>completeAuthorizationCodeGrant\<close> is the external
  client library's exchange of the code for tokens: it resolves with a response object or
  rejects. The call is given the storage and returns it with the outcome, so that what
  the call leaves in the storage can be stated.
\<close>

definition completeOidcLogin ::
  "(string \<Rightarrow> jsval option) \<Rightarrow> (string \<Rightarrow> jsobject \<Rightarrow> 'e + jsobject) \<Rightarrow> Storage \<Rightarrow> jsobject
    \<Rightarrow> ('e thrown + jsobject) \<times> Storage" where
  "completeOidcLogin parse completeAuthorizationCodeGrant sessionStorage queryParams =
    (case getCodeAndStateFromQueryParams queryParams of
       Inl e \<Rightarrow> (Inl e, sessionStorage)
     | Inr (code, state) \<Rightarrow>
        (case retrieveAuthorizationParams parse sessionStorage state of
           Inl e \<Rightarrow> (Inl e, sessionStorage)
         | Inr storedAuthorizationParams \<Rightarrow>
            (case completeAuthorizationCodeGrant code storedAuthorizationParams of
               Inl e \<Rightarrow> (Inl (Rejected e), sessionStorage)
             | Inr bearerTokenResponse \<Rightarrow>
                (Inr [(''homeserverUrl'', getProperty storedAuthorizationParams ''homeserverUrl''),
                      (''identityServerUrl'', getProperty storedAuthorizationParams ''identityServerUrl''),
                      (''accessToken'', getProperty bearerTokenResponse ''access_token'')],
                 sessionStorage))))"

text \<open>
  \<^verbatim>\<open>startOidcLogin\<close> (lines 107-125). \<open>generateAuthorizationParams\<close> and
  \<open>generateAuthorizationUrl\<close> are the external client library's; the second is awaited and
  may reject. The call reads \<^verbatim>\<open>window.location.origin\<close>, writes the session storage and,
  when the URL was built, \<^verbatim>\<open>window.location.href\<close>.
\<close>

record Window =
  w_origin :: string
  w_href :: string
  w_sessionStorage :: Storage

definition startOidcLogin ::
  "(string \<Rightarrow> AuthorizationParams) \<Rightarrow> (jsval \<Rightarrow> string \<Rightarrow> AuthorizationParams \<Rightarrow> 'e + string)
    \<Rightarrow> (jsval \<Rightarrow> string) \<Rightarrow> jsobject \<Rightarrow> string \<Rightarrow> string \<Rightarrow> string option \<Rightarrow> Window
    \<Rightarrow> ('e thrown + unit) \<times> Window" where
  "startOidcLogin generateAuthorizationParams generateAuthorizationUrl stringify delegatedAuthConfig
      clientId homeserverUrl identityServerUrl window =
    (let redirectUri = w_origin window;
         authParams = generateAuthorizationParams redirectUri;
         window1 = window\<lparr>w_sessionStorage :=
           storeAuthorizationParams stringify authParams delegatedAuthConfig clientId homeserverUrl
             identityServerUrl (w_sessionStorage window)\<rparr>
     in case generateAuthorizationUrl (getProperty delegatedAuthConfig ''authorizationEndpoint'')
               clientId authParams of
          Inl e \<Rightarrow> (Inl (Rejected e), window1)
        | Inr authorizationUrl \<Rightarrow> (Inr (), window1\<lparr>w_href := authorizationUrl\<rparr>))"

section \<open>A reference model of the platform's JSON functions\<close>

text \<open>
  The module's functions above take \<^verbatim>\<open>JSON.parse\<close> and \<^verbatim>\<open>JSON.stringify\<close> as arguments,
  and the general theorems below hold for every such pair. To evaluate the module on
  concrete storage contents, this section gives the two functions on a fragment of JSON:
  objects, arrays, strings with the two-character escapes, integers, and the three
  literals; a parsed object keeps its properties as written, a repeated key keeping its
  last value. Number literals with a fraction or an exponent and \<^verbatim>\<open>\u\<close> escapes are
  outside the fragment, and no concrete input below uses them.
\<close>

fun skipWhitespace :: "string \<Rightarrow> string" where
  "skipWhitespace [] = []"
| "skipWhitespace (c # cs) =
     (if c = CHR '' '' \<or> c = CHR 0x09 \<or> c = CHR 0x0A \<or> c = CHR 0x0D then skipWhitespace cs else c # cs)"

definition unescape :: "char \<Rightarrow> char option" where
  "unescape e =
     (if e = CHR 0x22 then Some (CHR 0x22)
      else if e = CHR 0x5C then Some (CHR 0x5C)
      else if e = CHR ''/'' then Some (CHR ''/'')
      else if e = CHR ''b'' then Some (CHR 0x08)
      else if e = CHR ''f'' then Some (CHR 0x0C)
      else if e = CHR ''n'' then Some (CHR 0x0A)
      else if e = CHR ''r'' then Some (CHR 0x0D)
      else if e = CHR ''t'' then Some (CHR 0x09)
      else None)"

fun parseChars :: "string \<Rightarrow> (string \<times> string) option" where
  "parseChars [] = None"
| "parseChars (c # cs) =
     (if c = CHR 0x22 then Some ([], cs)
      else if c = CHR 0x5C then
        (case cs of
           [] \<Rightarrow> None
         | e # cs' \<Rightarrow>
            (case unescape e of
               None \<Rightarrow> None
             | Some ch \<Rightarrow>
                (case parseChars cs' of None \<Rightarrow> None | Some (s, r) \<Rightarrow> Some (ch # s, r))))
      else if of_char c < (0x20 :: nat) then None
      else (case parseChars cs of None \<Rightarrow> None | Some (s, r) \<Rightarrow> Some (c # s, r)))"

definition isDigit :: "char \<Rightarrow> bool" where
  "isDigit c = (48 \<le> (of_char c :: nat) \<and> (of_char c :: nat) \<le> 57)"

fun parseDigits :: "nat \<Rightarrow> string \<Rightarrow> nat \<times> string" where
  "parseDigits acc [] = (acc, [])"
| "parseDigits acc (c # cs) =
     (if isDigit c then parseDigits (10 * acc + (of_char c - 48)) cs else (acc, c # cs))"

definition parseNumber :: "string \<Rightarrow> (jsval \<times> string) option" where
  "parseNumber cs =
     (let (negative, ds) = (case cs of [] \<Rightarrow> (False, cs)
                                     | c # r \<Rightarrow> if c = CHR ''-'' then (True, r) else (False, cs))
      in case ds of
           [] \<Rightarrow> None
         | d # r \<Rightarrow>
            if \<not> isDigit d then None
            else let (n, rest) = (if d = CHR ''0'' then (0, r) else parseDigits 0 ds)
                 in if rest \<noteq> [] \<and> hd rest \<in> {CHR ''.'', CHR ''e'', CHR ''E''} then None
                    else Some (JNum (if negative then - int n else int n), rest))"

fun parseLiteral :: "string \<Rightarrow> jsval \<Rightarrow> string \<Rightarrow> (jsval \<times> string) option" where
  "parseLiteral [] v cs = Some (v, cs)"
| "parseLiteral (l # ls) v [] = None"
| "parseLiteral (l # ls) v (c # cs) = (if c = l then parseLiteral ls v cs else None)"

fun parseValue :: "nat \<Rightarrow> string \<Rightarrow> (jsval \<times> string) option"
  and parseElements :: "nat \<Rightarrow> string \<Rightarrow> (jsval list \<times> string) option"
  and parseMembers :: "nat \<Rightarrow> string \<Rightarrow> (jsobject \<times> string) option" where
  "parseValue 0 cs = None"
| "parseValue (Suc n) cs =
     (case skipWhitespace cs of
        [] \<Rightarrow> None
      | c # r \<Rightarrow>
         if c = CHR ''{'' then
           (case skipWhitespace r of
              [] \<Rightarrow> None
            | c' # r' \<Rightarrow>
               if c' = CHR ''}'' then Some (JObject [], r')
               else (case parseMembers n r of
                       None \<Rightarrow> None
                     | Some (ms, r'') \<Rightarrow> Some (JObject (fold (\<lambda>(k, v). AList.update k v) ms []), r'')))
         else if c = CHR ''['' then
           (case skipWhitespace r of
              [] \<Rightarrow> None
            | c' # r' \<Rightarrow>
               if c' = CHR '']'' then Some (JArray [], r')
               else (case parseElements n r of
                       None \<Rightarrow> None
                     | Some (vs, r'') \<Rightarrow> Some (JArray vs, r'')))
         else if c = CHR 0x22 then
           (case parseChars r of None \<Rightarrow> None | Some (s, r') \<Rightarrow> Some (JString s, r'))
         else if c = CHR ''t'' then parseLiteral ''rue'' (JBool True) r
         else if c = CHR ''f'' then parseLiteral ''alse'' (JBool False) r
         else if c = CHR ''n'' then parseLiteral ''ull'' JNull r
         else parseNumber (c # r))"
| "parseElements 0 cs = None"
| "parseElements (Suc n) cs =
     (case parseValue n cs of
        None \<Rightarrow> None
      | Some (v, r) \<Rightarrow>
         (case skipWhitespace r of
            [] \<Rightarrow> None
          | c # r' \<Rightarrow>
             if c = CHR '','' then
               (case parseElements n r' of None \<Rightarrow> None | Some (vs, r'') \<Rightarrow> Some (v # vs, r''))
             else if c = CHR '']'' then Some ([v], r')
             else None))"
| "parseMembers 0 cs = None"
| "parseMembers (Suc n) cs =
     (case skipWhitespace cs of
        [] \<Rightarrow> None
      | q # r \<Rightarrow>
         if q \<noteq> CHR 0x22 then None
         else (case parseChars r of
                 None \<Rightarrow> None
               | Some (k, r1) \<Rightarrow>
                  (case skipWhitespace r1 of
                     [] \<Rightarrow> None
                   | colon # r2 \<Rightarrow>
                      if colon \<noteq> CHR '':'' then None
                      else (case parseValue n r2 of
                              None \<Rightarrow> None
                            | Some (v, r3) \<Rightarrow>
                               (case skipWhitespace r3 of
                                  [] \<Rightarrow> None
                                | c # r4 \<Rightarrow>
                                   if c = CHR '','' then
                                     (case parseMembers n r4 of
                                        None \<Rightarrow> None
                                      | Some (ms, r5) \<Rightarrow> Some ((k, v) # ms, r5))
                                   else if c = CHR ''}'' then Some ([(k, v)], r4)
                                   else None)))))"

definition JSON_parse :: "string \<Rightarrow> jsval option" where
  "JSON_parse text =
     (case parseValue (Suc (length text)) text of
        None \<Rightarrow> None
      | Some (v, r) \<Rightarrow> if skipWhitespace r = [] then Some v else None)"

fun showNat :: "nat \<Rightarrow> string" where
  "showNat n = (if n < 10 then [char_of (48 + n)] else showNat (n div 10) @ [char_of (48 + n mod 10)])"

definition showInt :: "int \<Rightarrow> string" where
  "showInt i = (if i < 0 then CHR ''-'' # showNat (nat (- i)) else showNat (nat i))"

definition hexDigit :: "nat \<Rightarrow> char" where
  "hexDigit d = (if d < 10 then char_of (48 + d) else char_of (87 + d))"

definition escapeChar :: "char \<Rightarrow> string" where
  "escapeChar c =
     (if c = CHR 0x22 then [CHR 0x5C, CHR 0x22]
      else if c = CHR 0x5C then [CHR 0x5C, CHR 0x5C]
      else if c = CHR 0x08 then [CHR 0x5C, CHR ''b'']
      else if c = CHR 0x0C then [CHR 0x5C, CHR ''f'']
      else if c = CHR 0x0A then [CHR 0x5C, CHR ''n'']
      else if c = CHR 0x0D then [CHR 0x5C, CHR ''r'']
      else if c = CHR 0x09 then [CHR 0x5C, CHR ''t'']
      else if of_char c < (0x20 :: nat)
        then [CHR 0x5C, CHR ''u'', CHR ''0'', CHR ''0'', hexDigit (of_char c div 16), hexDigit (of_char c mod 16)]
      else [c])"

definition quoteString :: "string \<Rightarrow> string" where
  "quoteString s = CHR 0x22 # concat (map escapeChar s) @ [CHR 0x22]"

fun commaSeparated :: "string list \<Rightarrow> string" where
  "commaSeparated [] = []"
| "commaSeparated [t] = t"
| "commaSeparated (t # ts) = t @ CHR '','' # commaSeparated ts"

fun serialize :: "jsval \<Rightarrow> string option"
  and serializeElements :: "jsval list \<Rightarrow> string list"
  and serializeMembers :: "(string \<times> jsval) list \<Rightarrow> string list" where
  "serialize JUndefined = None"
| "serialize JNull = Some ''null''"
| "serialize (JBool b) = Some (if b then ''true'' else ''false'')"
| "serialize (JNum n) = Some (showInt n)"
| "serialize (JString s) = Some (quoteString s)"
| "serialize (JArray vs) = Some (CHR ''['' # commaSeparated (serializeElements vs) @ '']'')"
| "serialize (JObject ps) = Some (CHR ''{'' # commaSeparated (serializeMembers ps) @ ''}'')"
| "serializeElements [] = []"
| "serializeElements (v # vs) =
     (case serialize v of None \<Rightarrow> ''null'' | Some t \<Rightarrow> t) # serializeElements vs"
| "serializeMembers [] = []"
| "serializeMembers (p # ps) =
     (case serialize (snd p) of
        None \<Rightarrow> serializeMembers ps
      | Some t \<Rightarrow> (quoteString (fst p) @ CHR '':'' # t) # serializeMembers ps)"

definition JSON_stringify :: "jsval \<Rightarrow> string" where
  "JSON_stringify v = (case serialize v of None \<Rightarrow> ''undefined'' | Some t \<Rightarrow> t)"

section \<open>Notions used to state the properties of the login flow\<close>

text \<open>
  A query parameter that \<^verbatim>\<open>getCodeAndStateFromQueryParams\<close> refuses: absent
  (\<^verbatim>\<open>undefined\<close>), the empty string, or not a string at all.
\<close>

definition absentEmptyOrNotString :: "jsval \<Rightarrow> bool" where
  "absentEmptyOrNotString v = (v = JUndefined \<or> v = JString [] \<or> typeof v \<noteq> ''string'')"

definition nonEmptyString :: "jsval \<Rightarrow> bool" where
  "nonEmptyString v = (case v of JString s \<Rightarrow> s \<noteq> [] | _ \<Rightarrow> False)"

text \<open>A storage entry that is not there, or holds the empty string.\<close>

definition missingOrEmpty :: "string option \<Rightarrow> bool" where
  "missingOrEmpty v = (v = None \<or> v = Some [])"

text \<open>
  The three things the stored \<^verbatim>\<open>delegatedAuthConfig\<close> text of a state can be for
  \<^verbatim>\<open>retrieveAuthorizationParams\<close>: a non-empty text that the parser rejects; no text, the
  empty text or a text that parses to a value that counts as false; or a text that
  parses to a value that counts as true.
\<close>

definition configUnparsable :: "(string \<Rightarrow> jsval option) \<Rightarrow> Storage \<Rightarrow> string \<Rightarrow> bool" where
  "configUnparsable parse ss st =
     (case ss (''oidc_'' @ st @ ''_delegatedAuthConfig'') of
        None \<Rightarrow> False
      | Some t \<Rightarrow> t \<noteq> [] \<and> parse t = None)"

definition configMissingOrFalsy :: "(string \<Rightarrow> jsval option) \<Rightarrow> Storage \<Rightarrow> string \<Rightarrow> bool" where
  "configMissingOrFalsy parse ss st =
     (case ss (''oidc_'' @ st @ ''_delegatedAuthConfig'') of
        None \<Rightarrow> True
      | Some t \<Rightarrow> t = [] \<or> (case parse t of None \<Rightarrow> False | Some v \<Rightarrow> \<not> truthy v))"

text \<open>One of the five required entries of a state is not there or is empty.\<close>

definition requiredMissingOrEmpty :: "Storage \<Rightarrow> string \<Rightarrow> bool" where
  "requiredMissingOrEmpty ss st =
     (missingOrEmpty (ss (''oidc_'' @ st @ ''_nonce''))
      \<or> missingOrEmpty (ss (''oidc_'' @ st @ ''_redirectUri''))
      \<or> missingOrEmpty (ss (''oidc_'' @ st @ ''_codeVerifier''))
      \<or> missingOrEmpty (ss (''oidc_'' @ st @ ''_clientId''))
      \<or> missingOrEmpty (ss (''oidc_'' @ st @ ''_homeserverUrl'')))"

text \<open>
  The object that \<^verbatim>\<open>retrieveAuthorizationParams\<close> hands to the validation when the stored
  configuration text did not make the parser throw: every entry as read from the storage.
\<close>

definition storedParams :: "(string \<Rightarrow> jsval option) \<Rightarrow> Storage \<Rightarrow> string \<Rightarrow> jsobject" where
  "storedParams parse ss st =
     [(''nonce'', orNull (ss (''oidc_'' @ st @ ''_nonce''))),
      (''redirectUri'', orNull (ss (''oidc_'' @ st @ ''_redirectUri''))),
      (''codeVerifier'', orNull (ss (''oidc_'' @ st @ ''_codeVerifier''))),
      (''clientId'', orNull (ss (''oidc_'' @ st @ ''_clientId''))),
      (''homeserverUrl'', orNull (ss (''oidc_'' @ st @ ''_homeserverUrl''))),
      (''identityServerUrl'', orUndefined (ss (''oidc_'' @ st @ ''_identityServerUrl''))),
      (''delegatedAuthConfig'',
         (case ss (''oidc_'' @ st @ ''_delegatedAuthConfig'') of
            None \<Rightarrow> JUndefined
          | Some t \<Rightarrow> if t = [] then JUndefined
                      else (case parse t of None \<Rightarrow> JUndefined | Some v \<Rightarrow> v)))]"

text \<open>
  A value survives a JSON round trip: its serialization is a text (never the empty
  string) that parses back to the value.
\<close>

definition survivesJsonRoundTrip ::
  "(string \<Rightarrow> jsval option) \<Rightarrow> (jsval \<Rightarrow> string) \<Rightarrow> jsval \<Rightarrow> bool" where
  "survivesJsonRoundTrip parse stringify v = (stringify v \<noteq> [] \<and> parse (stringify v) = Some v)"

text \<open>
  The identity-server URL found after storing: the one supplied when it is a non-empty
  string, else whatever entry the storage already held for the state.
\<close>

definition suppliedOrLeftover :: "string option \<Rightarrow> string option \<Rightarrow> jsval" where
  "suppliedOrLeftover identityServerUrl leftover =
     (if truthy (orUndefined identityServerUrl) then orUndefined identityServerUrl
      else orUndefined leftover)"

subsection \<open>Concrete inputs\<close>

text \<open>
  One login: the parameters generated for it, the provider's configuration, the storage
  after \<^verbatim>\<open>storeAuthorizationParams\<close> ran on an empty storage, a code exchange that accepts
  one code, and the query parameters of the callback.
\<close>

definition sampleAuthParams :: AuthorizationParams where
  "sampleAuthParams =
     \<lparr>ap_redirectUri = ''https://app.example'', ap_state = ''s1'', ap_nonce = ''n1'',
      ap_codeVerifier = ''v1'', ap_scope = ''openid''\<rparr>"

definition sampleConfig :: jsobject where
  "sampleConfig =
     [(''issuer'', JString ''https://op.example/''),
      (''authorizationEndpoint'', JString ''https://op.example/auth''),
      (''tokenEndpoint'', JString ''https://op.example/token'')]"

definition sampleStorage :: Storage where
  "sampleStorage =
     storeAuthorizationParams JSON_stringify sampleAuthParams sampleConfig ''client1''
       ''https://hs.example'' (Some ''https://is.example'') Map.empty"

definition sampleGrant :: "string \<Rightarrow> jsobject \<Rightarrow> string + jsobject" where
  "sampleGrant code params =
     (if code = ''code1''
      then Inr [(''access_token'', JString ''token1''), (''token_type'', JString ''Bearer'')]
      else Inl ''invalid_grant'')"

definition sampleQuery :: jsobject where
  "sampleQuery = [(''code'', JString ''code1''), (''state'', JString ''s1'')]"

section \<open>The session lock coordinator\<close>

text \<open>
  The coordinator itself (\<^verbatim>\<open>src/utils/SessionLock.ts\<close>, the function \<^verbatim>\<open>getSessionLock\<close>) is not
  among the sources; only its test is. Every definition of this section is therefore
  written from the specification (sections 3 to 8), and checked against what the test
  observes. Time is counted in the spec's time units. Each operation of an instance runs
  to its end before another instance acts, and a notification is delivered as soon as the
  store is written. Requests made at the same time are calls of \<^verbatim>\<open>acquire\<close> one after the
  other with no time passing in between: the caller that finds the RequestRecord slot
  empty writes it, and the other finds a foreign RequestRecord. The window of section 4.3
  in which two writers overwrite each other, and the claim race of section 4.1, are not
  modelled.
\<close>

text \<open>Modelled from the spec: the constants of section 3 (the coordinator's file is missing).\<close>

definition STALE_TIMEOUT :: nat where
  "STALE_TIMEOUT = 30"

definition HEARTBEAT_INTERVAL :: nat where
  "HEARTBEAT_INTERVAL = 5"


text \<open>Modelled from the spec: the LockRecord, the RequestRecord and the Shared Store of section 3.\<close>

record LockRecord =
  holderId :: nat
  lastHeartbeat :: nat

record RequestRecord =
  requesterId :: nat
  requestedAt :: nat

record SharedStore =
  lockRecord :: "LockRecord option"
  requestRecord :: "RequestRecord option"

text \<open>
  Modelled from the spec: the per-instance state machine of section 4.3. \<open>TERMINAL\<close> is the
  state after a release.
\<close>

datatype Phase = IDLE | CLAIMING | WAITING | HOLDING | RELEASING | BACKED_OFF | TERMINAL

text \<open>
  Modelled from the spec: what one instance of the coordinator keeps. \<open>acquireResult\<close> is what
  \<^verbatim>\<open>acquire\<close> resolved with (\<open>None\<close> while it is pending) and \<open>resolvedAt\<close> the time it did;
  \<open>onSupersededCalls\<close> counts the calls of the instance's own \<^verbatim>\<open>onSuperseded\<close>, which takes
  \<open>cleanupDuration\<close> time units and, once called, completes at \<open>cleanupEnds\<close>;
  \<open>heartbeatDue\<close> and \<open>watchdogDue\<close> are the Heartbeat and the Watchdog Timer. An instance
  that crashed or whose context was torn down is no longer \<open>alive\<close>: its timers never fire.
\<close>

record Instance =
  phase :: Phase
  alive :: bool
  acquireResult :: "bool option"
  resolvedAt :: "nat option"
  onSupersededCalls :: nat
  cleanupDuration :: nat
  cleanupEnds :: "nat option"
  heartbeatDue :: "nat option"
  watchdogDue :: "nat option"

text \<open>
  Modelled from the spec: the whole system of section 5: a clock, the Shared Store, and the
  instances by InstanceId, \<open>started\<close> listing those that called \<^verbatim>\<open>acquire\<close>, in order.
\<close>

record System =
  now :: nat
  store :: SharedStore
  started :: "nat list"
  instanceOf :: "nat \<Rightarrow> Instance"

definition freshInstance :: Instance where
  "freshInstance =
     \<lparr>phase = IDLE, alive = True, acquireResult = None, resolvedAt = None, onSupersededCalls = 0,
      cleanupDuration = 0, cleanupEnds = None, heartbeatDue = None, watchdogDue = None\<rparr>"

definition initialSystem :: System where
  "initialSystem =
     \<lparr>now = 0, store = \<lparr>lockRecord = None, requestRecord = None\<rparr>, started = [],
      instanceOf = (\<lambda>i. freshInstance)\<rparr>"

text \<open>
  Modelled from the spec: section 3, ``absent or with lastHeartbeat older than
  STALE_TIMEOUT: treated as vacant''. Sections 3 and 4.1 word the test strictly (older
  than, \<^verbatim>\<open>>\<close>), section 8 has the waiter acquire at exactly STALE_TIMEOUT after the last
  heartbeat, and so does the test (lines 107-113: still waiting 29.5 s after the heartbeat,
  holding at 30 s); the record is taken as stale once STALE_TIMEOUT has passed.
\<close>

definition vacant :: "nat \<Rightarrow> SharedStore \<Rightarrow> bool" where
  "vacant t s =
     (case lockRecord s of None \<Rightarrow> True | Some l \<Rightarrow> STALE_TIMEOUT \<le> t - lastHeartbeat l)"

text \<open>
  Modelled from the spec: when a LockRecord may be claimed over. Section 4.1 (steps 1 and
  3) has an instance claim a LockRecord that is absent or stale, its holder being presumed
  dead. A holder that is winding down has stopped its Heartbeat Timer (section 4.2) but
  is not dead: sections 7 and 9 have the waiter stalled for as long as \<^verbatim>\<open>onSuperseded\<close>
  runs, and section 8 (third property, and Scenario D with a callback of 2000 time units)
  has it acquire no earlier than the end of the callback. Read alone, sections 4.1 and
  4.2 would let a waiter claim the record of such a holder once it is stale; the
  properties of section 8 exclude it, and the definition follows them: the record of a
  holder whose \<^verbatim>\<open>onSuperseded\<close> is running is not claimed over, however old its heartbeat,
  and the release at the end of the callback is what lets the waiter in. Once such a
  holder is torn down or crashes, its record is claimed over like any other stale
  record.
\<close>

definition windingDown :: "System \<Rightarrow> bool" where
  "windingDown sys =
     (case lockRecord (store sys) of
        None \<Rightarrow> False
      | Some l \<Rightarrow> alive (instanceOf sys (holderId l))
                  \<and> phase (instanceOf sys (holderId l)) = RELEASING)"

definition claimable :: "System \<Rightarrow> bool" where
  "claimable sys = (vacant (now sys) (store sys) \<and> \<not> windingDown sys)"

definition updateInstance :: "nat \<Rightarrow> (Instance \<Rightarrow> Instance) \<Rightarrow> System \<Rightarrow> System" where
  "updateInstance i f sys = sys\<lparr>instanceOf := (instanceOf sys)(i := f (instanceOf sys i))\<rparr>"

text \<open>
  Modelled from the spec: ``become holder'' of section 4.1: start the Heartbeat Timer and
  resolve the pending \<^verbatim>\<open>acquire\<close> with true.
\<close>

definition becomeHolder :: "nat \<Rightarrow> System \<Rightarrow> System" where
  "becomeHolder i sys =
     updateInstance i
       (\<lambda>x. x\<lparr>phase := HOLDING, acquireResult := Some True, resolvedAt := Some (now sys),
              heartbeatDue := Some (now sys + HEARTBEAT_INTERVAL), watchdogDue := None\<rparr>) sys"

text \<open>
  Modelled from the spec: the supersession handler of section 4.2, on a RequestRecord of
  another instance: stop the Heartbeat Timer at once and invoke \<^verbatim>\<open>onSuperseded\<close>; the
  LockRecord is cleared when it completes (\<open>completeCleanup\<close> below).
\<close>

definition supersede :: "nat \<Rightarrow> System \<Rightarrow> System" where
  "supersede h sys =
     (let x = instanceOf sys h
      in if alive x \<and> phase x = HOLDING
         then updateInstance h
                (\<lambda>x. x\<lparr>phase := RELEASING, heartbeatDue := None,
                       onSupersededCalls := Suc (onSupersededCalls x),
                       cleanupEnds := Some (now sys + cleanupDuration x)\<rparr>) sys
         else sys)"

text \<open>
  Modelled from the spec: step 2 of section 4.1, with the poll interval \<open>P\<close> of the Watchdog
  Timer (the spec gives it no value): a RequestRecord of another requester makes the
  instance back off; otherwise it writes its own, which the holder is notified of, and
  waits.
\<close>

definition requestLock :: "nat \<Rightarrow> nat \<Rightarrow> System \<Rightarrow> System" where
  "requestLock P i sys =
     (case requestRecord (store sys) of
        Some r \<Rightarrow>
          if requesterId r \<noteq> i
          then updateInstance i
                 (\<lambda>x. x\<lparr>phase := BACKED_OFF, acquireResult := Some False,
                        resolvedAt := Some (now sys), watchdogDue := None\<rparr>) sys
          else sys
      | None \<Rightarrow>
          (let sys1 = sys\<lparr>store := (store sys)\<lparr>requestRecord :=
                         Some \<lparr>requesterId = i, requestedAt = now sys\<rparr>\<rparr>\<rparr>;
               sys2 = updateInstance i (\<lambda>x. x\<lparr>phase := WAITING, watchdogDue := Some (now sys + P)\<rparr>) sys1
           in case lockRecord (store sys2) of
                None \<Rightarrow> sys2
              | Some l \<Rightarrow> supersede (holderId l) sys2))"

text \<open>
  Modelled from the spec: the claim of step 1 and step 4 of section 4.1: write the
  LockRecord, read it again, and on success clear the own RequestRecord and become holder;
  a lost claim falls through to step 2.
\<close>

definition attemptClaim :: "nat \<Rightarrow> nat \<Rightarrow> System \<Rightarrow> System" where
  "attemptClaim P i sys =
     (let sys1 = sys\<lparr>store := (store sys)\<lparr>lockRecord :=
                    Some \<lparr>holderId = i, lastHeartbeat = now sys\<rparr>\<rparr>\<rparr>
      in case lockRecord (store sys1) of
           None \<Rightarrow> requestLock P i sys1
         | Some l \<Rightarrow>
             if holderId l = i
             then becomeHolder i
                    (sys1\<lparr>store := (store sys1)\<lparr>requestRecord :=
                       (case requestRecord (store sys1) of
                          None \<Rightarrow> None
                        | Some r \<Rightarrow> if requesterId r = i then None else Some r)\<rparr>\<rparr>)
             else requestLock P i sys1)"

text \<open>Modelled from the spec: step 1 of section 4.1.\<close>

definition tryAcquire :: "nat \<Rightarrow> nat \<Rightarrow> System \<Rightarrow> System" where
  "tryAcquire P i sys =
     (if claimable sys then attemptClaim P i sys else requestLock P i sys)"

text \<open>
  Modelled from the spec: the Notifier and step 3 of section 4.1: when the LockRecord is
  released, every waiting instance attempts the claim.
\<close>

definition notifyWaiters :: "nat \<Rightarrow> System \<Rightarrow> System" where
  "notifyWaiters P sys =
     fold (\<lambda>j s. if alive (instanceOf s j) \<and> phase (instanceOf s j) = WAITING
                  then tryAcquire P j s else s)
       (started sys) sys"

text \<open>Modelled from the spec: the release of section 4.2: clear the LockRecord.\<close>

definition release :: "nat \<Rightarrow> nat \<Rightarrow> System \<Rightarrow> System" where
  "release P h sys =
     notifyWaiters P
       (updateInstance h (\<lambda>x. x\<lparr>phase := TERMINAL, heartbeatDue := None, cleanupEnds := None\<rparr>)
          (sys\<lparr>store := (store sys)\<lparr>lockRecord := None\<rparr>\<rparr>))"

text \<open>
  Modelled from the spec: section 4.2, ``on completion, clear the LockRecord'': a running
  \<^verbatim>\<open>onSuperseded\<close> whose time is up has completed. The callback is awaited: it completes
  at a step of the clock (\<open>tickInstance\<close> below), never within the call that superseded the
  holder, so a callback of no duration completes at the next step.
\<close>

definition cleanupDone :: "nat \<Rightarrow> Instance \<Rightarrow> bool" where
  "cleanupDone t x =
     (alive x \<and> phase x = RELEASING
      \<and> (case cleanupEnds x of None \<Rightarrow> False | Some e \<Rightarrow> e \<le> t))"

definition completeCleanup :: "nat \<Rightarrow> nat \<Rightarrow> System \<Rightarrow> System" where
  "completeCleanup P i sys =
     (if cleanupDone (now sys) (instanceOf sys i) then release P i sys else sys)"

text \<open>
  Modelled from the spec: the timers of one instance at the current time: the Heartbeat
  Timer of a holder (section 4.1, ``rewrite lastHeartbeat = now every
  HEARTBEAT_INTERVAL''), the end of a running \<^verbatim>\<open>onSuperseded\<close>, and the Watchdog Timer of
  a waiter (step 3 of section 4.1), which claims the LockRecord when it may be claimed
  over (\<open>claimable\<close> above) and polls again after \<open>P\<close> time units otherwise.
\<close>

definition tickInstance :: "nat \<Rightarrow> nat \<Rightarrow> System \<Rightarrow> System" where
  "tickInstance P i sys =
     (let x = instanceOf sys i
      in if \<not> alive x then sys
         else if phase x = HOLDING \<and> heartbeatDue x = Some (now sys)
           then updateInstance i (\<lambda>x. x\<lparr>heartbeatDue := Some (now sys + HEARTBEAT_INTERVAL)\<rparr>)
                  (sys\<lparr>store := (store sys)\<lparr>lockRecord :=
                     Some \<lparr>holderId = i, lastHeartbeat = now sys\<rparr>\<rparr>\<rparr>)
         else if phase x = RELEASING
           then completeCleanup P i sys
         else if phase x = WAITING \<and> watchdogDue x = Some (now sys)
           then (if claimable sys then attemptClaim P i sys
                 else updateInstance i (\<lambda>x. x\<lparr>watchdogDue := Some (now sys + P)\<rparr>) sys)
         else sys)"

text \<open>Modelled from the spec: one time unit passes, then the timers that are due fire.\<close>

definition tick :: "nat \<Rightarrow> System \<Rightarrow> System" where
  "tick P sys =
     (let sys1 = sys\<lparr>now := Suc (now sys)\<rparr>
      in fold (tickInstance P) (started sys1) sys1)"

text \<open>
  Modelled from the spec: the public entry point of section 6, called by instance \<open>i\<close> with
  an \<^verbatim>\<open>onSuperseded\<close> that takes \<open>d\<close> time units.
\<close>

definition acquire :: "nat \<Rightarrow> nat \<Rightarrow> nat \<Rightarrow> System \<Rightarrow> System" where
  "acquire P i d sys =
     tryAcquire P i
       ((updateInstance i (\<lambda>x. x\<lparr>cleanupDuration := d\<rparr>) sys)\<lparr>started := started sys @ [i]\<rparr>)"

text \<open>
  Modelled from the spec: the shutdown signal of section 6 (the context is torn down; the
  test's \<^verbatim>\<open>pagehide\<close>), which section 4.2 has a holder answer by releasing at once, without
  \<^verbatim>\<open>onSuperseded\<close>.
\<close>

definition shutdown :: "nat \<Rightarrow> nat \<Rightarrow> System \<Rightarrow> System" where
  "shutdown P i sys =
     (let x = instanceOf sys i
      in if alive x \<and> (phase x = HOLDING \<or> phase x = RELEASING)
         then updateInstance i (\<lambda>x. x\<lparr>alive := False\<rparr>) (release P i sys)
         else updateInstance i (\<lambda>x. x\<lparr>alive := False\<rparr>) sys)"

text \<open>Modelled from the spec: a holder that terminates without releasing (section 3).\<close>

definition crash :: "nat \<Rightarrow> System \<Rightarrow> System" where
  "crash i sys = updateInstance i (\<lambda>x. x\<lparr>alive := False\<rparr>) sys"

text \<open>Modelled from the spec: what can happen to the system, and a sequence of it.\<close>

datatype Event = Acquire nat nat | Tick | Shutdown nat | Crash nat

fun perform :: "nat \<Rightarrow> Event \<Rightarrow> System \<Rightarrow> System" where
  "perform P (Acquire i d) sys = acquire P i d sys"
| "perform P Tick sys = tick P sys"
| "perform P (Shutdown i) sys = shutdown P i sys"
| "perform P (Crash i) sys = crash i sys"

definition run :: "nat \<Rightarrow> Event list \<Rightarrow> System \<Rightarrow> System" where
  "run P events sys = fold (perform P) events sys"

text \<open>The states the system passes through, the first and the last included.\<close>

fun trace :: "nat \<Rightarrow> Event list \<Rightarrow> System \<Rightarrow> System list" where
  "trace P [] sys = [sys]"
| "trace P (e # es) sys = sys # trace P es (perform P e sys)"

text \<open>The instances that hold the lock: holding it, or giving it up and not done yet.\<close>

definition holders :: "System \<Rightarrow> nat list" where
  "holders sys =
     filter (\<lambda>i. alive (instanceOf sys i)
                 \<and> (phase (instanceOf sys i) = HOLDING \<or> phase (instanceOf sys i) = RELEASING))
       (started sys)"

text \<open>
  Instances started one at a time with a clean release between each: instance \<open>i\<close> starts
  with a callback of duration \<open>d\<close>, holds the lock for \<open>a\<close> time units, shuts down, and \<open>b\<close>
  time units pass before the next one starts.
\<close>

fun cleanRounds :: "(nat \<times> nat \<times> nat \<times> nat) list \<Rightarrow> Event list" where
  "cleanRounds [] = []"
| "cleanRounds ((i, d, a, b) # rs) =
     Acquire i d # replicate a Tick @ Shutdown i # replicate b Tick @ cleanRounds rs"

section \<open>Notions used to state the properties of the lock\<close>


text \<open>
  No instance holds or requests the lock: every instance that was started resolved
  \<^verbatim>\<open>acquire\<close> with true, was never superseded and has shut down; the instances not started
  yet are untouched.
\<close>

definition settled :: "System \<Rightarrow> bool" where
  "settled s =
     (lockRecord (store s) = None \<and> requestRecord (store s) = None \<and> distinct (started s)
      \<and> (\<forall>j \<in> set (started s).
            \<not> alive (instanceOf s j) \<and> acquireResult (instanceOf s j) = Some True
            \<and> onSupersededCalls (instanceOf s j) = 0)
      \<and> (\<forall>j. j \<notin> set (started s) \<longrightarrow>
            alive (instanceOf s j) \<and> onSupersededCalls (instanceOf s j) = 0))"

text \<open>
  Instance \<open>i\<close> holds the lock after a sequence of clean rounds: it resolved with true and
  was never superseded, and every other started instance has shut down in the same way.
\<close>

definition heldBy :: "nat \<Rightarrow> System \<Rightarrow> bool" where
  "heldBy i s =
     (i \<in> set (started s) \<and> distinct (started s) \<and> requestRecord (store s) = None
      \<and> alive (instanceOf s i) \<and> phase (instanceOf s i) = HOLDING
      \<and> acquireResult (instanceOf s i) = Some True \<and> onSupersededCalls (instanceOf s i) = 0
      \<and> (\<forall>j \<in> set (started s). j \<noteq> i \<longrightarrow>
            \<not> alive (instanceOf s j) \<and> acquireResult (instanceOf s j) = Some True
            \<and> onSupersededCalls (instanceOf s j) = 0)
      \<and> (\<forall>j. j \<notin> set (started s) \<longrightarrow>
            alive (instanceOf s j) \<and> onSupersededCalls (instanceOf s j) = 0))"

text \<open>
  What clean sequential use promises of a state: at most one instance holds the lock,
  every started instance resolved \<^verbatim>\<open>acquire\<close> with true, and no \<^verbatim>\<open>onSuperseded\<close> was called.
\<close>

definition usedProperly :: "System \<Rightarrow> bool" where
  "usedProperly s =
     (length (holders s) \<le> 1
      \<and> (\<forall>i \<in> set (started s).
            acquireResult (instanceOf s i) = Some True \<and> onSupersededCalls (instanceOf s i) = 0))"

text \<open>
  Instance \<open>i\<close> resolved \<^verbatim>\<open>acquire\<close> with true and waits no longer.
\<close>

definition resolvedTrue :: "nat \<Rightarrow> System \<Rightarrow> bool" where
  "resolvedTrue i s =
     (acquireResult (instanceOf s i) = Some True \<and> phase (instanceOf s i) \<noteq> WAITING)"










subsection \<open>Concrete runs\<close>

text \<open>
  Three clean rounds: instance 1 holds for 7 time units and instance 2 starts 2 units
  after it shut down; instance 2 (with a callback of 3 units that is never called) shuts
  down at once; instance 3 holds for 12 units.
\<close>

definition sampleRounds :: "(nat \<times> nat \<times> nat \<times> nat) list" where
  "sampleRounds = [(1, 0, 7, 2), (2, 3, 0, 0), (3, 1, 12, 1)]"




section \<open>Facts about the login flow\<close>

lemma getProperty_Cons:
  "getProperty ((k, v) # obj) key = (if key = k then v else getProperty obj key)"
  by (simp add: getProperty_def)

lemma getProperty_Nil: "getProperty [] key = JUndefined"
  by (simp add: getProperty_def)

lemma truthy_string_nonEmptyString: "(truthy v \<and> typeof v = ''string'') = nonEmptyString v"
  by (cases v) (auto simp: nonEmptyString_def)

lemma absent_iff_not_nonEmptyString: "absentEmptyOrNotString v = (\<not> nonEmptyString v)"
  by (cases v) (auto simp: absentEmptyOrNotString_def nonEmptyString_def)

lemma nonEmptyString_orNull: "nonEmptyString (orNull v) = (\<not> missingOrEmpty v)"
  by (cases v) (auto simp: nonEmptyString_def orNull_def missingOrEmpty_def)

lemma getCodeAndState_eq:
  "getCodeAndStateFromQueryParams q =
     (if nonEmptyString (getProperty q ''code'') \<and> nonEmptyString (getProperty q ''state'')
      then Inr (ofString (getProperty q ''code''), ofString (getProperty q ''state''))
      else Inl (Error InvalidQueryParameters))"
  by (auto simp: getCodeAndStateFromQueryParams_def Let_def truthy_string_nonEmptyString[symmetric])

lemma validate_cases:
  "validateStoredAuthorizationParams params = Inr params
   \<or> validateStoredAuthorizationParams params = Inl (Error StoredParamsNotFound)"
  by (simp add: validateStoredAuthorizationParams_def)

lemma retrieve_cases:
  fixes r :: "'e thrown + jsobject"
  assumes "r = retrieveAuthorizationParams parse ss st"
  shows "(\<exists>p. r = Inr p) \<or> r = Inl (Error StoredParamsNotFound) \<or> r = Inl SyntaxError"
  using assms validate_cases
  unfolding retrieveAuthorizationParams_def Let_def
  by (auto split: option.splits)

lemma retrieve_not_InvalidQueryParameters:
  "retrieveAuthorizationParams parse ss st \<noteq> Inl (Error InvalidQueryParameters)"
  using retrieve_cases[OF refl, of parse ss st, where ?'e = 'a] by auto

lemma validate_iff:
  "(validateStoredAuthorizationParams params = Inl (Error StoredParamsNotFound))
     = ((\<exists>key \<in> set requiredStringProperties. \<not> nonEmptyString (getProperty params key))
        \<or> (getProperty params ''identityServerUrl'' \<noteq> JUndefined
            \<and> typeof (getProperty params ''identityServerUrl'') \<noteq> ''string'')
        \<or> \<not> truthy (getProperty params ''delegatedAuthConfig''))"
  by (auto simp: validateStoredAuthorizationParams_def list_all_iff truthy_string_nonEmptyString)

lemma validate_Inr:
  "validateStoredAuthorizationParams params \<noteq> Inl (Error StoredParamsNotFound)
   \<Longrightarrow> validateStoredAuthorizationParams params = Inr params"
  by (simp add: validateStoredAuthorizationParams_def split: if_splits)

lemma typeof_orUndefined:
  "orUndefined v = JUndefined \<or> typeof (orUndefined v) = ''string''"
  by (cases v) (simp_all add: orUndefined_def)

lemma retrieve_unparsable:
  "configUnparsable parse ss st \<Longrightarrow> retrieveAuthorizationParams parse ss st = Inl SyntaxError"
  by (auto simp: configUnparsable_def retrieveAuthorizationParams_def Let_def getItem_def orNull_def
      split: option.splits)

lemma retrieve_parsable:
  "\<not> configUnparsable parse ss st \<Longrightarrow>
   retrieveAuthorizationParams parse ss st
     = validateStoredAuthorizationParams (storedParams parse ss st)"
  by (auto simp: configUnparsable_def retrieveAuthorizationParams_def Let_def getItem_def orNull_def
      storedParams_def split: option.splits)

lemma validate_storedParams_iff:
  "(validateStoredAuthorizationParams (storedParams parse ss st) = Inl (Error StoredParamsNotFound))
     = (requiredMissingOrEmpty ss st \<or> configMissingOrFalsy parse ss st \<or> configUnparsable parse ss st)"
  unfolding validate_iff
  using typeof_orUndefined[of "ss (''oidc_'' @ st @ ''_identityServerUrl'')"]
  by (auto simp: storedParams_def requiredStringProperties_def getProperty_Cons getProperty_Nil
      nonEmptyString_orNull requiredMissingOrEmpty_def configMissingOrFalsy_def configUnparsable_def
      split: option.splits)

lemma store_lookup:
  "storeAuthorizationParams stringify ap cfg clientId homeserverUrl ids ss (''oidc_'' @ ap_state ap @ ''_nonce'')
     = Some (ap_nonce ap)"
  "storeAuthorizationParams stringify ap cfg clientId homeserverUrl ids ss (''oidc_'' @ ap_state ap @ ''_redirectUri'')
     = Some (ap_redirectUri ap)"
  "storeAuthorizationParams stringify ap cfg clientId homeserverUrl ids ss (''oidc_'' @ ap_state ap @ ''_codeVerifier'')
     = Some (ap_codeVerifier ap)"
  "storeAuthorizationParams stringify ap cfg clientId homeserverUrl ids ss (''oidc_'' @ ap_state ap @ ''_clientId'')
     = Some clientId"
  "storeAuthorizationParams stringify ap cfg clientId homeserverUrl ids ss (''oidc_'' @ ap_state ap @ ''_homeserverUrl'')
     = Some homeserverUrl"
  "storeAuthorizationParams stringify ap cfg clientId homeserverUrl ids ss (''oidc_'' @ ap_state ap @ ''_delegatedAuthConfig'')
     = Some (stringify (JObject cfg))"
  by (simp_all add: storeAuthorizationParams_def Let_def setItem_def)

lemma store_lookup_identityServerUrl:
  "orUndefined (storeAuthorizationParams stringify ap cfg clientId homeserverUrl ids ss
      (''oidc_'' @ ap_state ap @ ''_identityServerUrl''))
     = suppliedOrLeftover ids (ss (''oidc_'' @ ap_state ap @ ''_identityServerUrl''))"
  by (cases ids) (simp_all add: storeAuthorizationParams_def Let_def setItem_def suppliedOrLeftover_def
      orUndefined_def)

lemma sample_roundtrip: "survivesJsonRoundTrip JSON_parse JSON_stringify (JObject sampleConfig)"
  by code_simp

lemma sample_complete_fst:
  "fst (completeOidcLogin JSON_parse sampleGrant sampleStorage sampleQuery) =
     Inr [(''homeserverUrl'', JString ''https://hs.example''),
          (''identityServerUrl'', JString ''https://is.example''),
          (''accessToken'', JString ''token1'')]"
  by code_simp

lemma complete_snd: "snd (completeOidcLogin parse grant ss q) = ss"
  by (simp add: completeOidcLogin_def split: sum.splits prod.splits)

lemma sample_complete:
  "completeOidcLogin JSON_parse sampleGrant sampleStorage sampleQuery =
     (Inr [(''homeserverUrl'', JString ''https://hs.example''),
           (''identityServerUrl'', JString ''https://is.example''),
           (''accessToken'', JString ''token1'')], sampleStorage)"
  using sample_complete_fst complete_snd[of JSON_parse sampleGrant sampleStorage sampleQuery]
  by (simp add: prod_eq_iff)

section \<open>Lemmas about the lock\<close>

lemma updateInstance_simps [simp]:
  "now (updateInstance i f s) = now s"
  "store (updateInstance i f s) = store s"
  "started (updateInstance i f s) = started s"
  "instanceOf (updateInstance i f s) j = (if j = i then f (instanceOf s i) else instanceOf s j)"
  by (simp_all add: updateInstance_def)

lemma fold_id:
  "(\<And>j. j \<in> set js \<Longrightarrow> f j s = s) \<Longrightarrow> fold f js s = s"
  by (induction js) simp_all

lemma fold_invariant:
  assumes "Inv s" and "\<And>j t. Inv t \<Longrightarrow> j \<in> set js \<Longrightarrow> Inv (f j t)"
  shows "Inv (fold f js s)"
  using assms by (induction js arbitrary: s) simp_all

lemma tickInstance_dead: "\<not> alive (instanceOf s j) \<Longrightarrow> tickInstance P j s = s"
  by (simp add: tickInstance_def)

lemma notifyWaiters_none:
  "(\<And>j. j \<in> set (started s) \<Longrightarrow> \<not> (alive (instanceOf s j) \<and> phase (instanceOf s j) = WAITING))
   \<Longrightarrow> notifyWaiters P s = s"
proof -
  assume a: "\<And>j. j \<in> set (started s) \<Longrightarrow> \<not> (alive (instanceOf s j) \<and> phase (instanceOf s j) = WAITING)"
  show ?thesis
    unfolding notifyWaiters_def
  proof (rule fold_id)
    fix j assume "j \<in> set (started s)"
    from a[OF this]
    show "(if alive (instanceOf s j) \<and> phase (instanceOf s j) = WAITING then tryAcquire P j s else s) = s"
      by auto
  qed
qed

lemma settled_acquire:
  assumes "settled s" and "i \<notin> set (started s)"
  shows "heldBy i (acquire P i d s) \<and> started (acquire P i d s) = started s @ [i]"
proof -
  let ?s1 = "(updateInstance i (\<lambda>x. x\<lparr>cleanupDuration := d\<rparr>) s)\<lparr>started := started s @ [i]\<rparr>"
  let ?s2 = "tryAcquire P i ?s1"
  have v: "claimable ?s1"
    using assms(1) by (simp add: claimable_def windingDown_def vacant_def settled_def)
  have h2: "heldBy i ?s2 \<and> started ?s2 = started s @ [i]"
    using v assms
    by (auto simp: tryAcquire_def attemptClaim_def heldBy_def becomeHolder_def settled_def)
  show ?thesis
    using h2 by (simp add: acquire_def)
qed

lemma length_filter_le_1:
  "distinct xs \<Longrightarrow> \<forall>x \<in> set xs. Q x \<longrightarrow> x = i \<Longrightarrow> length (filter Q xs) \<le> 1"
proof (induction xs)
  case Nil
  then show ?case by simp
next
  case (Cons x xs)
  show ?case
  proof (cases "Q x")
    case True
    have m: "x \<in> set (x # xs)" by simp
    have "x = i" using Cons.prems(2) True m by blast
    moreover have "x \<notin> set xs" using Cons.prems(1) by simp
    moreover have "\<forall>y \<in> set xs. y \<in> set (x # xs)" by simp
    ultimately have "\<forall>y \<in> set xs. \<not> Q y"
      using Cons.prems(2) by blast
    then have "filter Q xs = []"
      by (simp add: filter_empty_conv)
    then show ?thesis by simp
  next
    case False
    have "\<forall>y \<in> set xs. Q y \<longrightarrow> y = i"
      using Cons.prems(2) by (meson list.set_intros(2))
    moreover have "distinct xs" using Cons.prems(1) by simp
    ultimately have "length (filter Q xs) \<le> 1" by (rule Cons.IH[rotated])
    then show ?thesis using False by simp
  qed
qed

lemma heldBy_usedProperly:
  assumes "heldBy i s"
  shows "usedProperly s"
proof -
  have "length (holders s) \<le> 1"
    unfolding holders_def
    by (rule length_filter_le_1[where i = i]) (use assms in \<open>auto simp: heldBy_def\<close>)
  then show ?thesis
    using assms by (auto simp: usedProperly_def heldBy_def)
qed

lemma settled_usedProperly: "settled s \<Longrightarrow> usedProperly s"
  unfolding usedProperly_def holders_def
  by (auto simp: settled_def filter_empty_conv)

lemma settled_initialSystem: "settled initialSystem"
  by (simp add: settled_def initialSystem_def freshInstance_def)

lemma heldBy_tickInstance:
  assumes "heldBy i s" and "j \<in> set (started s)"
  shows "heldBy i (tickInstance P j s)"
proof (cases "j = i")
  case True
  then show ?thesis
    using assms by (auto simp: heldBy_def tickInstance_def Let_def)
next
  case False
  then have "tickInstance P j s = s"
    using assms by (intro tickInstance_dead) (simp add: heldBy_def)
  then show ?thesis using assms by simp
qed

lemma heldBy_tickInstance_started:
  assumes "heldBy i s" and "j \<in> set (started s)"
  shows "started (tickInstance P j s) = started s"
proof (cases "j = i")
  case True
  then show ?thesis
    using assms by (auto simp: heldBy_def tickInstance_def Let_def)
next
  case False
  then have "tickInstance P j s = s"
    using assms by (intro tickInstance_dead) (simp add: heldBy_def)
  then show ?thesis by simp
qed

lemma heldBy_tick:
  assumes "heldBy i s"
  shows "heldBy i (tick P s) \<and> started (tick P s) = started s"
proof -
  let ?s1 = "s\<lparr>now := Suc (now s)\<rparr>"
  have h1: "heldBy i ?s1 \<and> started ?s1 = started s"
    using assms by (simp add: heldBy_def)
  have "heldBy i (fold (tickInstance P) (started s) ?s1)
        \<and> started (fold (tickInstance P) (started s) ?s1) = started s"
    by (rule fold_invariant[where Inv = "\<lambda>t. heldBy i t \<and> started t = started s"])
       (use h1 heldBy_tickInstance heldBy_tickInstance_started in auto)
  then show ?thesis by (simp add: tick_def Let_def)
qed

lemma settled_tick:
  assumes "settled s"
  shows "tick P s = s\<lparr>now := Suc (now s)\<rparr>"
proof -
  let ?s1 = "s\<lparr>now := Suc (now s)\<rparr>"
  have "fold (tickInstance P) (started ?s1) ?s1 = ?s1"
  proof (rule fold_id)
    fix j assume "j \<in> set (started ?s1)"
    then have "\<not> alive (instanceOf ?s1 j)"
      using assms by (simp add: settled_def)
    then show "tickInstance P j ?s1 = ?s1" by (rule tickInstance_dead)
  qed
  then show ?thesis by (simp add: tick_def Let_def)
qed

lemma heldBy_shutdown:
  assumes "heldBy i s"
  shows "settled (shutdown P i s) \<and> started (shutdown P i s) = started s"
proof -
  let ?s1 = "updateInstance i (\<lambda>x. x\<lparr>phase := TERMINAL, heartbeatDue := None, cleanupEnds := None\<rparr>)
          (s\<lparr>store := (store s)\<lparr>lockRecord := None\<rparr>\<rparr>)"
  have "notifyWaiters P ?s1 = ?s1"
  proof (rule notifyWaiters_none)
    fix j assume "j \<in> set (started ?s1)"
    then show "\<not> (alive (instanceOf ?s1 j) \<and> phase (instanceOf ?s1 j) = WAITING)"
      using assms by (cases "j = i") (simp_all add: heldBy_def)
  qed
  then have r: "release P i s = ?s1" by (simp add: release_def)
  have a: "alive (instanceOf s i) \<and> (phase (instanceOf s i) = HOLDING \<or> phase (instanceOf s i) = RELEASING)"
    using assms by (simp add: heldBy_def)
  have "shutdown P i s = updateInstance i (\<lambda>x. x\<lparr>alive := False\<rparr>) ?s1"
    using a r by (simp add: shutdown_def Let_def)
  then show ?thesis
    using assms by (simp add: heldBy_def settled_def)
qed

lemma run_Cons [simp]: "run P (e # es) s = run P es (perform P e s)"
  by (simp add: run_def)

lemma run_Nil [simp]: "run P [] s = s"
  by (simp add: run_def)

lemma run_append: "run P (xs @ ys) s = run P ys (run P xs s)"
  by (simp add: run_def)

lemma trace_head: "s \<in> set (trace P es s)"
  by (cases es) simp_all

lemma trace_last: "run P es s \<in> set (trace P es s)"
  by (induction es arbitrary: s) simp_all

lemma set_trace_append:
  "set (trace P (xs @ ys) s) = set (trace P xs s) \<union> set (trace P ys (run P xs s))"
proof (induction xs arbitrary: s)
  case Nil
  then show ?case using trace_head[of s P ys] by auto
next
  case (Cons x xs)
  then show ?case by simp
qed

lemma ticks_invariant:
  assumes "\<And>t. Inv t \<Longrightarrow> Inv (tick P t)" and "Inv s"
  shows "Inv (run P (replicate n Tick) s) \<and> (\<forall>t \<in> set (trace P (replicate n Tick) s). Inv t)"
  using assms(2)
proof (induction n arbitrary: s)
  case 0
  then show ?case by simp
next
  case (Suc n)
  from Suc.IH[OF assms(1)[OF Suc.prems]] Suc.prems show ?case by simp
qed

lemma settled_tick_settled:
  assumes "settled s \<and> started s = ids"
  shows "settled (tick P s) \<and> started (tick P s) = ids"
proof -
  have "tick P s = s\<lparr>now := Suc (now s)\<rparr>"
    using assms by (simp add: settled_tick)
  then show ?thesis
    using assms by (auto simp: settled_def)
qed

lemma heldBy_tick_started:
  "heldBy i s \<and> started s = ids \<Longrightarrow> heldBy i (tick P s) \<and> started (tick P s) = ids"
  using heldBy_tick[of i s P] by simp

lemma clean_round:
  assumes "settled s" and "i \<notin> set (started s)"
  shows "settled (run P (Acquire i d # replicate a Tick @ Shutdown i # replicate b Tick) s)
    \<and> started (run P (Acquire i d # replicate a Tick @ Shutdown i # replicate b Tick) s)
        = started s @ [i]
    \<and> (\<forall>t \<in> set (trace P (Acquire i d # replicate a Tick @ Shutdown i # replicate b Tick) s).
          usedProperly t)"
proof -
  let ?ids = "started s @ [i]"
  let ?s1 = "acquire P i d s"
  let ?s2 = "run P (replicate a Tick) ?s1"
  let ?s3 = "shutdown P i ?s2"
  let ?s4 = "run P (replicate b Tick) ?s3"
  have h1: "heldBy i ?s1 \<and> started ?s1 = ?ids"
    using settled_acquire[OF assms] by simp
  have h2: "(heldBy i ?s2 \<and> started ?s2 = ?ids)
      \<and> (\<forall>t \<in> set (trace P (replicate a Tick) ?s1). heldBy i t \<and> started t = ?ids)"
    by (rule ticks_invariant[where Inv = "\<lambda>t. heldBy i t \<and> started t = ?ids"])
       (use h1 heldBy_tick_started in auto)
  have h3: "settled ?s3 \<and> started ?s3 = ?ids"
    using heldBy_shutdown[of i ?s2 P] h2 by simp
  have h4: "(settled ?s4 \<and> started ?s4 = ?ids)
      \<and> (\<forall>t \<in> set (trace P (replicate b Tick) ?s3). settled t \<and> started t = ?ids)"
    by (rule ticks_invariant[where Inv = "\<lambda>t. settled t \<and> started t = ?ids"])
       (use h3 settled_tick_settled in auto)
  have r: "run P (Acquire i d # replicate a Tick @ Shutdown i # replicate b Tick) s = ?s4"
    by (simp add: run_append)
  have t: "set (trace P (Acquire i d # replicate a Tick @ Shutdown i # replicate b Tick) s)
      = {s} \<union> set (trace P (replicate a Tick) ?s1) \<union> set (trace P (replicate b Tick) ?s3)"
    using trace_last[of P "replicate a Tick" ?s1] by (auto simp: set_trace_append)
  have u0: "usedProperly s"
    using assms(1) by (rule settled_usedProperly)
  have u1: "\<forall>t \<in> set (trace P (replicate a Tick) ?s1). usedProperly t"
    using h2 heldBy_usedProperly by blast
  have u2: "\<forall>t \<in> set (trace P (replicate b Tick) ?s3). usedProperly t"
    using h4 settled_usedProperly by blast
  have "\<forall>t \<in> set (trace P (Acquire i d # replicate a Tick @ Shutdown i # replicate b Tick) s).
          usedProperly t"
    unfolding t using u0 u1 u2 by blast
  then show ?thesis
    unfolding r using h4 by blast
qed

lemma clean_rounds:
  assumes "distinct (map fst rounds)" and "settled s"
    and "set (map fst rounds) \<inter> set (started s) = {}"
  shows "\<forall>t \<in> set (trace P (cleanRounds rounds) s). usedProperly t"
  using assms
proof (induction rounds arbitrary: s)
  case Nil
  then show ?case by (simp add: settled_usedProperly)
next
  case (Cons r rounds)
  obtain i d a b where r: "r = (i, d, a, b)" by (cases r) auto
  let ?R = "Acquire i d # replicate a Tick @ Shutdown i # replicate b Tick"
  have i: "i \<notin> set (started s)" using Cons.prems(3) r by auto
  note c = clean_round[OF Cons.prems(2) i, of P d a b]
  have c1: "settled (run P ?R s)" and c2: "started (run P ?R s) = started s @ [i]"
    and c3: "\<forall>t \<in> set (trace P ?R s). usedProperly t"
    using c by blast+
  have d: "distinct (map fst rounds)" and n: "i \<notin> set (map fst rounds)"
    using Cons.prems(1) r by simp_all
  have "set (map fst rounds) \<inter> set (started s) = {}"
    using Cons.prems(3) by auto
  then have "set (map fst rounds) \<inter> set (started (run P ?R s)) = {}"
    unfolding c2 using n by auto
  then have ih: "\<forall>t \<in> set (trace P (cleanRounds rounds) (run P ?R s)). usedProperly t"
    using Cons.IH[OF d c1] by blast
  have e: "cleanRounds (r # rounds) = ?R @ cleanRounds rounds"
    by (simp add: r)
  show ?case
    unfolding e set_trace_append using c3 ih by blast
qed







lemma fresh_start:
  assumes "lockRecord (store s) = None"
  shows "acquireResult (instanceOf (acquire P i d s) i) = Some True"
proof -
  let ?s1 = "(updateInstance i (\<lambda>x. x\<lparr>cleanupDuration := d\<rparr>) s)\<lparr>started := started s @ [i]\<rparr>"
  let ?s2 = "tryAcquire P i ?s1"
  have "claimable ?s1"
    using assms by (simp add: claimable_def windingDown_def vacant_def)
  then have "resolvedTrue i ?s2"
    by (simp add: tryAcquire_def attemptClaim_def becomeHolder_def resolvedTrue_def)
  then show ?thesis
    by (simp add: acquire_def resolvedTrue_def)
qed









































section \<open>Properties of the login flow\<close>

text \<open>
  Claim C5 (validation of the callback's query parameters). For every dictionary of
  query parameters, every storage, every parser and every code exchange,
  \<^verbatim>\<open>completeOidcLogin\<close> ends with the error \<^verbatim>\<open>InvalidQueryParameters\<close> exactly when the
  \<^verbatim>\<open>code\<close> entry or the \<^verbatim>\<open>state\<close> entry is absent, empty or not a string. When both are
  non-empty strings, \<^verbatim>\<open>getCodeAndStateFromQueryParams\<close> returns exactly these two strings,
  and the call goes on with them: the stored parameters are retrieved for this state, and
  this code is the one handed to the code exchange.
\<close>

theorem completeOidcLogin_query_validation:
  "((fst (completeOidcLogin parse grant ss q) = Inl (Error InvalidQueryParameters))
      = (absentEmptyOrNotString (getProperty q ''code'')
         \<or> absentEmptyOrNotString (getProperty q ''state'')))
   \<and> (getProperty q ''code'' = JString c \<and> c \<noteq> [] \<and> getProperty q ''state'' = JString s \<and> s \<noteq> []
        \<longrightarrow> getCodeAndStateFromQueryParams q = Inr (c, s)
          \<and> completeOidcLogin parse grant ss q =
              (case retrieveAuthorizationParams parse ss s of
                 Inl e \<Rightarrow> (Inl e, ss)
               | Inr stored \<Rightarrow>
                  (case grant c stored of
                     Inl e \<Rightarrow> (Inl (Rejected e), ss)
                   | Inr response \<Rightarrow>
                      (Inr [(''homeserverUrl'', getProperty stored ''homeserverUrl''),
                            (''identityServerUrl'', getProperty stored ''identityServerUrl''),
                            (''accessToken'', getProperty response ''access_token'')], ss))))"
proof (intro conjI impI)
  show "(fst (completeOidcLogin parse grant ss q) = Inl (Error InvalidQueryParameters))
      = (absentEmptyOrNotString (getProperty q ''code'')
         \<or> absentEmptyOrNotString (getProperty q ''state''))"
  proof (cases "nonEmptyString (getProperty q ''code'') \<and> nonEmptyString (getProperty q ''state'')")
    case True
    then have "fst (completeOidcLogin parse grant ss q) \<noteq> Inl (Error InvalidQueryParameters)"
      using retrieve_not_InvalidQueryParameters[of parse ss "ofString (getProperty q ''state'')"]
      by (auto simp: completeOidcLogin_def getCodeAndState_eq split: sum.splits)
    with True show ?thesis by (simp add: absent_iff_not_nonEmptyString)
  next
    case False
    then have "fst (completeOidcLogin parse grant ss q) = Inl (Error InvalidQueryParameters)"
      by (auto simp: completeOidcLogin_def getCodeAndState_eq)
    with False show ?thesis by (auto simp: absent_iff_not_nonEmptyString)
  qed
next
  assume h: "getProperty q ''code'' = JString c \<and> c \<noteq> [] \<and> getProperty q ''state'' = JString s \<and> s \<noteq> []"
  then show "getCodeAndStateFromQueryParams q = Inr (c, s)"
    by (simp add: getCodeAndState_eq nonEmptyString_def)
  from h have "getCodeAndStateFromQueryParams q = (Inr (c, s) :: 'a thrown + string \<times> string)"
    by (simp add: getCodeAndState_eq nonEmptyString_def)
  then show "completeOidcLogin parse grant ss q =
              (case retrieveAuthorizationParams parse ss s of
                 Inl e \<Rightarrow> (Inl e, ss)
               | Inr stored \<Rightarrow>
                  (case grant c stored of
                     Inl e \<Rightarrow> (Inl (Rejected e), ss)
                   | Inr response \<Rightarrow>
                      (Inr [(''homeserverUrl'', getProperty stored ''homeserverUrl''),
                            (''identityServerUrl'', getProperty stored ''identityServerUrl''),
                            (''accessToken'', getProperty response ''access_token'')], ss)))"
    by (simp add: completeOidcLogin_def)
qed
theorem completeOidcLogin_query_validation_witness:
  "getProperty sampleQuery ''code'' = JString ''code1'' \<and> ''code1'' \<noteq> []
   \<and> getProperty sampleQuery ''state'' = JString ''s1'' \<and> ''s1'' \<noteq> []
   \<and> getCodeAndStateFromQueryParams sampleQuery = (Inr (''code1'', ''s1'') :: string thrown + string \<times> string)
   \<and> fst (completeOidcLogin JSON_parse sampleGrant sampleStorage sampleQuery)
       \<noteq> Inl (Error InvalidQueryParameters)
   \<and> absentEmptyOrNotString (getProperty [(''state'', JString ''s1'')] ''code'')
   \<and> fst (completeOidcLogin JSON_parse sampleGrant sampleStorage [(''state'', JString ''s1'')])
       = Inl (Error InvalidQueryParameters)"
proof -
  have h: "getProperty sampleQuery ''code'' = JString ''code1'' \<and> ''code1'' \<noteq> []
     \<and> getProperty sampleQuery ''state'' = JString ''s1'' \<and> ''s1'' \<noteq> []"
    by (simp add: sampleQuery_def getProperty_def)
  have a: "absentEmptyOrNotString (getProperty [(''state'', JString ''s1'')] ''code'')"
    by (simp add: getProperty_def absentEmptyOrNotString_def)
  have n: "\<not> absentEmptyOrNotString (getProperty sampleQuery ''code'')"
    "\<not> absentEmptyOrNotString (getProperty sampleQuery ''state'')"
    by (simp_all add: sampleQuery_def getProperty_def absentEmptyOrNotString_def)
  show ?thesis
    using h a n
      completeOidcLogin_query_validation[of JSON_parse sampleGrant sampleStorage sampleQuery
        "''code1''" "''s1''"]
      completeOidcLogin_query_validation[of JSON_parse sampleGrant sampleStorage
        "[(''state'', JString ''s1'')]" "''code1''" "''s1''"]
    by blast
qed
text \<open>
  Claim C6 (validation of the stored parameters), as amended. Retrieval first parses the
  stored \<^verbatim>\<open>delegatedAuthConfig\<close> text when there is a non-empty one: a text that the parser
  rejects ends the retrieval with the parser's \<^verbatim>\<open>SyntaxError\<close>, whatever the other
  entries hold. Otherwise retrieval ends with \<^verbatim>\<open>StoredParamsNotFound\<close> exactly when one of
  nonce, redirectUri, codeVerifier, clientId, homeserverUrl is not stored or is empty, or
  the configuration is not stored, is empty or parses to a value that counts as false; and
  when it does not end so, it returns the parameters as read from the storage. On any
  object, the validation ends with \<^verbatim>\<open>StoredParamsNotFound\<close> exactly when one of the five
  required properties is not a non-empty string, or identityServerUrl is present and not
  a string, or delegatedAuthConfig counts as false; otherwise it returns the object
  unchanged. \<^verbatim>\<open>StoredParamsNotFound\<close> and \<^verbatim>\<open>InvalidQueryParameters\<close> are different errors.
\<close>

theorem retrieveAuthorizationParams_outcome:
  fixes r :: "'e thrown + jsobject" and v :: "'e thrown + jsobject"
  assumes r: "r = retrieveAuthorizationParams parse ss st"
    and v: "v = validateStoredAuthorizationParams params"
  shows "(configUnparsable parse ss st \<longrightarrow> r = Inl SyntaxError)
    \<and> (\<not> configUnparsable parse ss st \<longrightarrow>
         (r = Inl (Error StoredParamsNotFound))
           = (requiredMissingOrEmpty ss st \<or> configMissingOrFalsy parse ss st))
    \<and> (\<not> configUnparsable parse ss st \<and> r \<noteq> Inl (Error StoredParamsNotFound) \<longrightarrow>
         r = Inr (storedParams parse ss st))
    \<and> (v = Inl (Error StoredParamsNotFound))
         = ((\<exists>key \<in> set requiredStringProperties. \<not> nonEmptyString (getProperty params key))
            \<or> (getProperty params ''identityServerUrl'' \<noteq> JUndefined
                \<and> typeof (getProperty params ''identityServerUrl'') \<noteq> ''string'')
            \<or> \<not> truthy (getProperty params ''delegatedAuthConfig''))
    \<and> (v \<noteq> Inl (Error StoredParamsNotFound) \<longrightarrow> v = Inr params)
    \<and> StoredParamsNotFound \<noteq> InvalidQueryParameters"
proof (intro conjI impI)
  assume "configUnparsable parse ss st"
  then show "r = Inl SyntaxError"
    unfolding r by (rule retrieve_unparsable)
next
  assume p: "\<not> configUnparsable parse ss st"
  show "(r = Inl (Error StoredParamsNotFound))
           = (requiredMissingOrEmpty ss st \<or> configMissingOrFalsy parse ss st)"
    unfolding r retrieve_parsable[OF p] validate_storedParams_iff using p by simp
next
  assume "\<not> configUnparsable parse ss st \<and> r \<noteq> Inl (Error StoredParamsNotFound)"
  then have p: "\<not> configUnparsable parse ss st" and n: "r \<noteq> Inl (Error StoredParamsNotFound)"
    by simp_all
  have "r = validateStoredAuthorizationParams (storedParams parse ss st)"
    unfolding r by (rule retrieve_parsable[OF p])
  with n show "r = Inr (storedParams parse ss st)"
    by (simp add: validate_Inr)
next
  show "(v = Inl (Error StoredParamsNotFound))
         = ((\<exists>key \<in> set requiredStringProperties. \<not> nonEmptyString (getProperty params key))
            \<or> (getProperty params ''identityServerUrl'' \<noteq> JUndefined
                \<and> typeof (getProperty params ''identityServerUrl'') \<noteq> ''string'')
            \<or> \<not> truthy (getProperty params ''delegatedAuthConfig''))"
    unfolding v by (rule validate_iff)
next
  assume "v \<noteq> Inl (Error StoredParamsNotFound)"
  then show "v = Inr params"
    unfolding v by (rule validate_Inr)
next
  show "StoredParamsNotFound \<noteq> InvalidQueryParameters" by simp
qed
theorem retrieveAuthorizationParams_outcome_witness:
  "\<not> configUnparsable JSON_parse sampleStorage ''s1''
   \<and> \<not> requiredMissingOrEmpty sampleStorage ''s1''
   \<and> \<not> configMissingOrFalsy JSON_parse sampleStorage ''s1''
   \<and> retrieveAuthorizationParams JSON_parse sampleStorage ''s1''
       = (Inr (storedParams JSON_parse sampleStorage ''s1'') :: unit thrown + jsobject)
   \<and> configUnparsable JSON_parse (setItem sampleStorage ''oidc_s1_delegatedAuthConfig'' ''{'') ''s1''
   \<and> retrieveAuthorizationParams JSON_parse
         (setItem sampleStorage ''oidc_s1_delegatedAuthConfig'' ''{'') ''s1''
       = (Inl SyntaxError :: unit thrown + jsobject)
   \<and> validateStoredAuthorizationParams [(''nonce'', JString ''n1'')]
       = (Inl (Error StoredParamsNotFound) :: unit thrown + jsobject)"
proof -
  have p: "\<not> configUnparsable JSON_parse sampleStorage ''s1''" by code_simp
  have m: "\<not> requiredMissingOrEmpty sampleStorage ''s1''" by code_simp
  have f: "\<not> configMissingOrFalsy JSON_parse sampleStorage ''s1''" by code_simp
  have u: "configUnparsable JSON_parse (setItem sampleStorage ''oidc_s1_delegatedAuthConfig'' ''{'') ''s1''"
    by code_simp
  have k: "\<exists>key \<in> set requiredStringProperties. \<not> nonEmptyString (getProperty [(''nonce'', JString ''n1'')] key)"
    by code_simp
  show ?thesis
    using p m f u k
      retrieveAuthorizationParams_outcome[OF refl refl, of JSON_parse sampleStorage "''s1''"
        "[(''nonce'', JString ''n1'')]", where ?'e = unit]
      retrieveAuthorizationParams_outcome[OF refl refl, of JSON_parse
        "setItem sampleStorage ''oidc_s1_delegatedAuthConfig'' ''{''" "''s1''"
        "[(''nonce'', JString ''n1'')]", where ?'e = unit]
    by blast
qed
text \<open>
  The claim as first stated fails on storages that \<^verbatim>\<open>storeAuthorizationParams\<close> never
  writes but that the session storage can hold. With the five required entries stored
  and the configuration text \<^verbatim>\<open>{\<close>, retrieval throws \<^verbatim>\<open>SyntaxError\<close>: the parameters are
  not returned. With the nonce removed as well it still throws \<^verbatim>\<open>SyntaxError\<close>, not
  \<^verbatim>\<open>StoredParamsNotFound\<close>. With the configuration text \<^verbatim>\<open>null\<close> it throws
  \<^verbatim>\<open>StoredParamsNotFound\<close> although every entry is stored.
\<close>

theorem retrieveAuthorizationParams_counterexample:
  "\<not> requiredMissingOrEmpty (setItem sampleStorage ''oidc_s1_delegatedAuthConfig'' ''{'') ''s1''
   \<and> setItem sampleStorage ''oidc_s1_delegatedAuthConfig'' ''{'' ''oidc_s1_delegatedAuthConfig'' = Some ''{''
   \<and> retrieveAuthorizationParams JSON_parse
         (setItem sampleStorage ''oidc_s1_delegatedAuthConfig'' ''{'') ''s1''
       = (Inl SyntaxError :: unit thrown + jsobject)
   \<and> ((setItem sampleStorage ''oidc_s1_delegatedAuthConfig'' ''{'')(''oidc_s1_nonce'' := None))
         ''oidc_s1_nonce'' = None
   \<and> retrieveAuthorizationParams JSON_parse
         ((setItem sampleStorage ''oidc_s1_delegatedAuthConfig'' ''{'')(''oidc_s1_nonce'' := None)) ''s1''
       = (Inl SyntaxError :: unit thrown + jsobject)
   \<and> \<not> requiredMissingOrEmpty (setItem sampleStorage ''oidc_s1_delegatedAuthConfig'' ''null'') ''s1''
   \<and> setItem sampleStorage ''oidc_s1_delegatedAuthConfig'' ''null'' ''oidc_s1_delegatedAuthConfig''
       = Some ''null''
   \<and> retrieveAuthorizationParams JSON_parse
         (setItem sampleStorage ''oidc_s1_delegatedAuthConfig'' ''null'') ''s1''
       = (Inl (Error StoredParamsNotFound) :: unit thrown + jsobject)"
  by code_simp
text \<open>
  Claim C7 (store, then retrieve), as amended. For every state and all parameters whose
  nonce, redirectUri, codeVerifier, clientId and homeserverUrl are non-empty strings and
  whose delegatedAuthConfig object survives a JSON round trip, storing the parameters
  into any storage and then retrieving by the same state succeeds and returns the same
  five strings and the same configuration. The identityServerUrl returned is the one
  supplied when it is a non-empty string; otherwise it is the entry the storage already
  held under that state's identityServerUrl key, and \<^verbatim>\<open>undefined\<close> only when there was none.
\<close>

theorem store_then_retrieve:
  fixes r :: "'e thrown + jsobject"
  assumes "ap_nonce ap \<noteq> []" and "ap_redirectUri ap \<noteq> []" and "ap_codeVerifier ap \<noteq> []"
    and "clientId \<noteq> []" and "homeserverUrl \<noteq> []"
    and "survivesJsonRoundTrip parse stringify (JObject delegatedAuthConfig)"
    and "r = retrieveAuthorizationParams parse
               (storeAuthorizationParams stringify ap delegatedAuthConfig clientId homeserverUrl
                  identityServerUrl ss)
               (ap_state ap)"
  shows "r = Inr [(''nonce'', JString (ap_nonce ap)),
                  (''redirectUri'', JString (ap_redirectUri ap)),
                  (''codeVerifier'', JString (ap_codeVerifier ap)),
                  (''clientId'', JString clientId),
                  (''homeserverUrl'', JString homeserverUrl),
                  (''identityServerUrl'',
                     suppliedOrLeftover identityServerUrl
                       (ss (''oidc_'' @ ap_state ap @ ''_identityServerUrl''))),
                  (''delegatedAuthConfig'', JObject delegatedAuthConfig)]"
proof -
  let ?ss = "storeAuthorizationParams stringify ap delegatedAuthConfig clientId homeserverUrl
               identityServerUrl ss"
  let ?st = "ap_state ap"
  have cfg: "?ss (''oidc_'' @ ?st @ ''_delegatedAuthConfig'') = Some (stringify (JObject delegatedAuthConfig))"
    by (rule store_lookup)
  have ne: "stringify (JObject delegatedAuthConfig) \<noteq> []"
    and rt: "parse (stringify (JObject delegatedAuthConfig)) = Some (JObject delegatedAuthConfig)"
    using assms(6) by (simp_all add: survivesJsonRoundTrip_def)
  have p: "\<not> configUnparsable parse ?ss ?st"
    unfolding configUnparsable_def cfg using rt by simp
  have f: "\<not> configMissingOrFalsy parse ?ss ?st"
    unfolding configMissingOrFalsy_def cfg using rt ne by simp
  have m: "\<not> requiredMissingOrEmpty ?ss ?st"
    unfolding requiredMissingOrEmpty_def store_lookup using assms(1-5)
    by (simp add: missingOrEmpty_def)
  have "validateStoredAuthorizationParams (storedParams parse ?ss ?st)
          \<noteq> (Inl (Error StoredParamsNotFound) :: 'e thrown + jsobject)"
    unfolding validate_storedParams_iff using p f m by simp
  then have "r = Inr (storedParams parse ?ss ?st)"
    unfolding assms(7) retrieve_parsable[OF p] by (rule validate_Inr)
  also have "storedParams parse ?ss ?st =
     [(''nonce'', JString (ap_nonce ap)),
      (''redirectUri'', JString (ap_redirectUri ap)),
      (''codeVerifier'', JString (ap_codeVerifier ap)),
      (''clientId'', JString clientId),
      (''homeserverUrl'', JString homeserverUrl),
      (''identityServerUrl'',
         suppliedOrLeftover identityServerUrl (ss (''oidc_'' @ ap_state ap @ ''_identityServerUrl''))),
      (''delegatedAuthConfig'', JObject delegatedAuthConfig)]"
    unfolding storedParams_def store_lookup store_lookup_identityServerUrl
    using ne rt by (simp add: orNull_def)
  finally show ?thesis .
qed
theorem store_then_retrieve_witness:
  "ap_nonce sampleAuthParams \<noteq> [] \<and> ap_redirectUri sampleAuthParams \<noteq> []
   \<and> ap_codeVerifier sampleAuthParams \<noteq> [] \<and> ''client1'' \<noteq> [] \<and> ''https://hs.example'' \<noteq> []
   \<and> survivesJsonRoundTrip JSON_parse JSON_stringify (JObject sampleConfig)
   \<and> retrieveAuthorizationParams JSON_parse sampleStorage (ap_state sampleAuthParams)
       = (Inr [(''nonce'', JString (ap_nonce sampleAuthParams)),
               (''redirectUri'', JString (ap_redirectUri sampleAuthParams)),
               (''codeVerifier'', JString (ap_codeVerifier sampleAuthParams)),
               (''clientId'', JString ''client1''),
               (''homeserverUrl'', JString ''https://hs.example''),
               (''identityServerUrl'',
                  suppliedOrLeftover (Some ''https://is.example'')
                    (Map.empty (''oidc_'' @ ap_state sampleAuthParams @ ''_identityServerUrl''))),
               (''delegatedAuthConfig'', JObject sampleConfig)] :: unit thrown + jsobject)"
proof -
  have h: "ap_nonce sampleAuthParams \<noteq> []" "ap_redirectUri sampleAuthParams \<noteq> []"
    "ap_codeVerifier sampleAuthParams \<noteq> []" "''client1'' \<noteq> []" "''https://hs.example'' \<noteq> []"
    by (simp_all add: sampleAuthParams_def)
  show ?thesis
    using h sample_roundtrip
      store_then_retrieve[OF h sample_roundtrip refl, of "Some ''https://is.example''" Map.empty,
        where ?'e = unit]
    unfolding sampleStorage_def by blast
qed
text \<open>
  The claim as first stated says that identityServerUrl is \<^verbatim>\<open>undefined\<close> whenever none is
  supplied. \<^verbatim>\<open>storeAuthorizationParams\<close> then writes no identityServerUrl entry and removes
  none, so an entry left in the storage for the same state is what retrieval returns.
\<close>

theorem store_then_retrieve_counterexample:
  "retrieveAuthorizationParams JSON_parse
     (storeAuthorizationParams JSON_stringify sampleAuthParams sampleConfig ''client1''
        ''https://hs.example'' None
        (setItem Map.empty ''oidc_s1_identityServerUrl'' ''https://old.example''))
     (ap_state sampleAuthParams)
   = (Inr [(''nonce'', JString ''n1''),
           (''redirectUri'', JString ''https://app.example''),
           (''codeVerifier'', JString ''v1''),
           (''clientId'', JString ''client1''),
           (''homeserverUrl'', JString ''https://hs.example''),
           (''identityServerUrl'', JString ''https://old.example''),
           (''delegatedAuthConfig'', JObject sampleConfig)] :: unit thrown + jsobject)"
  by code_simp
text \<open>
  Claim C8 (shape of the result). When \<^verbatim>\<open>completeOidcLogin\<close> succeeds, the query
  parameters held a code and a state, the parameters stored for that state were
  retrieved, the code exchange resolved with a response, and the result is the object
  with exactly the three properties homeserverUrl (the spec's serverUrl: the target
  server URL stored for the state), identityServerUrl (the identity-server URL stored for
  the state, \<^verbatim>\<open>undefined\<close> when none is stored) and accessToken (the \<^verbatim>\<open>access_token\<close> of the
  exchange's response).
\<close>

theorem completeOidcLogin_result:
  fixes grant :: "string \<Rightarrow> jsobject \<Rightarrow> 'e + jsobject"
  assumes "completeOidcLogin parse grant ss q = (Inr result, ss')"
  shows "\<exists>code st hs stored response.
           getProperty q ''code'' = JString code
         \<and> getProperty q ''state'' = JString st
         \<and> ss (''oidc_'' @ st @ ''_homeserverUrl'') = Some hs
         \<and> retrieveAuthorizationParams parse ss st = (Inr stored :: 'e thrown + jsobject)
         \<and> grant code stored = Inr response
         \<and> result = [(''homeserverUrl'', JString hs),
                     (''identityServerUrl'', orUndefined (ss (''oidc_'' @ st @ ''_identityServerUrl''))),
                     (''accessToken'', getProperty response ''access_token'')]"
proof -
  have ne: "nonEmptyString (getProperty q ''code'') \<and> nonEmptyString (getProperty q ''state'')"
    using assms by (auto simp: completeOidcLogin_def getCodeAndState_eq split: if_splits)
  then obtain code st where c: "getProperty q ''code'' = JString code" "code \<noteq> []"
    and s: "getProperty q ''state'' = JString st" "st \<noteq> []"
    by (auto simp: nonEmptyString_def split: jsval.splits)
  have gc: "getCodeAndStateFromQueryParams q = (Inr (code, st) :: 'e thrown + string \<times> string)"
    using c s by (simp add: getCodeAndState_eq nonEmptyString_def)
  from assms gc obtain stored where
    st: "retrieveAuthorizationParams parse ss st = (Inr stored :: 'e thrown + jsobject)"
    by (auto simp: completeOidcLogin_def split: sum.splits)
  from assms gc st obtain response where g: "grant code stored = Inr response"
    and res: "result = [(''homeserverUrl'', getProperty stored ''homeserverUrl''),
                        (''identityServerUrl'', getProperty stored ''identityServerUrl''),
                        (''accessToken'', getProperty response ''access_token'')]"
    by (auto simp: completeOidcLogin_def split: sum.splits)
  have p: "\<not> configUnparsable parse ss st"
    using st retrieve_unparsable[of parse ss st, where ?'a = 'e] by auto
  have v: "validateStoredAuthorizationParams (storedParams parse ss st) = (Inr stored :: 'e thrown + jsobject)"
    using st retrieve_parsable[OF p, where ?'a = 'e] by simp
  then have eq: "stored = storedParams parse ss st"
    by (simp add: validateStoredAuthorizationParams_def split: if_splits)
  have "\<not> requiredMissingOrEmpty ss st"
    using v validate_storedParams_iff[of parse ss st, where ?'a = 'e] by simp
  then obtain hs where hs: "ss (''oidc_'' @ st @ ''_homeserverUrl'') = Some hs"
    by (auto simp: requiredMissingOrEmpty_def missingOrEmpty_def)
  have "result = [(''homeserverUrl'', JString hs),
                  (''identityServerUrl'', orUndefined (ss (''oidc_'' @ st @ ''_identityServerUrl''))),
                  (''accessToken'', getProperty response ''access_token'')]"
    unfolding res eq using hs
    by (simp add: storedParams_def getProperty_Cons orNull_def)
  with c s hs st g show ?thesis by blast
qed
theorem completeOidcLogin_result_witness:
  "completeOidcLogin JSON_parse sampleGrant sampleStorage sampleQuery =
     (Inr [(''homeserverUrl'', JString ''https://hs.example''),
           (''identityServerUrl'', JString ''https://is.example''),
           (''accessToken'', JString ''token1'')], sampleStorage)
   \<and> (\<exists>code st hs stored response.
           getProperty sampleQuery ''code'' = JString code
         \<and> getProperty sampleQuery ''state'' = JString st
         \<and> sampleStorage (''oidc_'' @ st @ ''_homeserverUrl'') = Some hs
         \<and> retrieveAuthorizationParams JSON_parse sampleStorage st = (Inr stored :: string thrown + jsobject)
         \<and> sampleGrant code stored = Inr response
         \<and> [(''homeserverUrl'', JString ''https://hs.example''),
             (''identityServerUrl'', JString ''https://is.example''),
             (''accessToken'', JString ''token1'')]
            = [(''homeserverUrl'', JString hs),
               (''identityServerUrl'', orUndefined (sampleStorage (''oidc_'' @ st @ ''_identityServerUrl''))),
               (''accessToken'', getProperty response ''access_token'')])"
  using sample_complete completeOidcLogin_result[OF sample_complete]
  by blast
text \<open>
  Claim C9 (an empty required value counts as absent), as amended. When the storage holds
  the empty string under one of the five required keys of a state, retrieval for that
  state ends exactly as it does with that key removed, and it never returns parameters:
  it throws \<^verbatim>\<open>StoredParamsNotFound\<close>, unless the stored configuration text is one that the
  parser rejects, in which case it throws the parser's \<^verbatim>\<open>SyntaxError\<close>.
\<close>

theorem empty_required_value_like_absent:
  fixes r :: "'e thrown + jsobject"
  assumes "key \<in> set requiredStringProperties"
    and "ss (''oidc_'' @ st @ ''_'' @ key) = Some []"
    and "r = retrieveAuthorizationParams parse ss st"
  shows "r = retrieveAuthorizationParams parse (ss(''oidc_'' @ st @ ''_'' @ key := None)) st
       \<and> r = (if configUnparsable parse ss st then Inl SyntaxError
              else Inl (Error StoredParamsNotFound))"
proof -
  let ?ss' = "ss(''oidc_'' @ st @ ''_'' @ key := None)"
  have u: "configUnparsable parse ?ss' st = configUnparsable parse ss st"
    using assms(1) by (auto simp: configUnparsable_def requiredStringProperties_def)
  have m: "requiredMissingOrEmpty ss st"
    using assms(1,2) by (auto simp: requiredMissingOrEmpty_def missingOrEmpty_def requiredStringProperties_def)
  have m': "requiredMissingOrEmpty ?ss' st"
    using assms(1) by (auto simp: requiredMissingOrEmpty_def missingOrEmpty_def requiredStringProperties_def)
  show ?thesis
  proof (cases "configUnparsable parse ss st")
    case True
    then show ?thesis
      using u retrieve_unparsable[of parse ss st, where ?'a = 'e]
        retrieve_unparsable[of parse ?ss' st, where ?'a = 'e]
      unfolding assms(3) by simp
  next
    case False
    have "retrieveAuthorizationParams parse ss st = (Inl (Error StoredParamsNotFound) :: 'e thrown + jsobject)"
      unfolding retrieve_parsable[OF False] validate_storedParams_iff using m by simp
    moreover have "retrieveAuthorizationParams parse ?ss' st = (Inl (Error StoredParamsNotFound) :: 'e thrown + jsobject)"
      using False u m' retrieve_parsable[of parse ?ss' st, where ?'a = 'e]
        validate_storedParams_iff[of parse ?ss' st, where ?'a = 'e]
      by simp
    ultimately show ?thesis
      using False unfolding assms(3) by simp
  qed
qed
theorem empty_required_value_like_absent_witness:
  "''clientId'' \<in> set requiredStringProperties
   \<and> setItem sampleStorage ''oidc_s1_clientId'' [] (''oidc_'' @ ''s1'' @ ''_'' @ ''clientId'') = Some []
   \<and> \<not> configUnparsable JSON_parse (setItem sampleStorage ''oidc_s1_clientId'' []) ''s1''
   \<and> retrieveAuthorizationParams JSON_parse (setItem sampleStorage ''oidc_s1_clientId'' []) ''s1''
       = (Inl (Error StoredParamsNotFound) :: unit thrown + jsobject)
   \<and> retrieveAuthorizationParams JSON_parse
        ((setItem sampleStorage ''oidc_s1_clientId'' [])(''oidc_'' @ ''s1'' @ ''_'' @ ''clientId'' := None)) ''s1''
       = (Inl (Error StoredParamsNotFound) :: unit thrown + jsobject)"
proof -
  have k: "''clientId'' \<in> set requiredStringProperties"
    by (simp add: requiredStringProperties_def)
  have e: "setItem sampleStorage ''oidc_s1_clientId'' [] (''oidc_'' @ ''s1'' @ ''_'' @ ''clientId'') = Some []"
    by (simp add: setItem_def)
  have p: "\<not> configUnparsable JSON_parse (setItem sampleStorage ''oidc_s1_clientId'' []) ''s1''"
    by code_simp
  note t = empty_required_value_like_absent[where key = "''clientId''"
        and ss = "setItem sampleStorage ''oidc_s1_clientId'' []" and st = "''s1''"
        and parse = JSON_parse and ?'e = unit, OF k e refl]
  from t have "retrieveAuthorizationParams JSON_parse (setItem sampleStorage ''oidc_s1_clientId'' []) ''s1''
       = (if configUnparsable JSON_parse (setItem sampleStorage ''oidc_s1_clientId'' []) ''s1''
          then Inl SyntaxError else (Inl (Error StoredParamsNotFound) :: unit thrown + jsobject))"
    by (rule conjunct2)
  with p have a: "retrieveAuthorizationParams JSON_parse (setItem sampleStorage ''oidc_s1_clientId'' []) ''s1''
       = (Inl (Error StoredParamsNotFound) :: unit thrown + jsobject)"
    by (simp only: if_False)
  from t have c: "retrieveAuthorizationParams JSON_parse (setItem sampleStorage ''oidc_s1_clientId'' []) ''s1''
       = (retrieveAuthorizationParams JSON_parse
           ((setItem sampleStorage ''oidc_s1_clientId'' [])(''oidc_'' @ ''s1'' @ ''_'' @ ''clientId'' := None)) ''s1''
           :: unit thrown + jsobject)"
    by (rule conjunct1)
  have b: "retrieveAuthorizationParams JSON_parse
        ((setItem sampleStorage ''oidc_s1_clientId'' [])(''oidc_'' @ ''s1'' @ ''_'' @ ''clientId'' := None)) ''s1''
       = (Inl (Error StoredParamsNotFound) :: unit thrown + jsobject)"
    using c[symmetric] a by (rule trans)
  show ?thesis
    using k e p a b by (intro conjI)
qed
text \<open>
  The claim as first stated promises \<^verbatim>\<open>StoredParamsNotFound\<close> for every such storage. With
  an empty nonce and the configuration text \<^verbatim>\<open>{\<close>, the parser throws before the validation
  runs.
\<close>

theorem empty_required_value_counterexample:
  "setItem (setItem sampleStorage ''oidc_s1_nonce'' []) ''oidc_s1_delegatedAuthConfig'' ''{''
      ''oidc_s1_nonce'' = Some []
   \<and> retrieveAuthorizationParams JSON_parse
        (setItem (setItem sampleStorage ''oidc_s1_nonce'' []) ''oidc_s1_delegatedAuthConfig'' ''{'') ''s1''
       = (Inl SyntaxError :: unit thrown + jsobject)"
  by code_simp
text \<open>
  Claim C10 (completion leaves the storage alone). Whatever \<^verbatim>\<open>completeOidcLogin\<close> ends
  with, the session storage after the call is the storage before it, so running it
  again with the same query parameters gives the same outcome from the same stored
  values. \<^verbatim>\<open>startOidcLogin\<close> is the function that writes: after it, the storage is the one
  \<^verbatim>\<open>storeAuthorizationParams\<close> produced for the generated parameters, and it holds the
  generated nonce under the generated state. The code exchange of the external client
  library is taken as a function of its two arguments.
\<close>

theorem completeOidcLogin_leaves_storage:
  "snd (completeOidcLogin parse grant ss q) = ss
   \<and> completeOidcLogin parse grant (snd (completeOidcLogin parse grant ss q)) q
       = completeOidcLogin parse grant ss q
   \<and> w_sessionStorage (snd (startOidcLogin generateAuthorizationParams generateAuthorizationUrl
         stringify delegatedAuthConfig clientId homeserverUrl identityServerUrl window))
       = storeAuthorizationParams stringify (generateAuthorizationParams (w_origin window))
           delegatedAuthConfig clientId homeserverUrl identityServerUrl (w_sessionStorage window)
   \<and> w_sessionStorage (snd (startOidcLogin generateAuthorizationParams generateAuthorizationUrl
         stringify delegatedAuthConfig clientId homeserverUrl identityServerUrl window))
         (''oidc_'' @ ap_state (generateAuthorizationParams (w_origin window)) @ ''_nonce'')
       = Some (ap_nonce (generateAuthorizationParams (w_origin window)))"
proof -
  have s: "snd (completeOidcLogin parse grant ss q) = ss"
    by (simp add: completeOidcLogin_def split: sum.splits prod.splits)
  have w: "w_sessionStorage (snd (startOidcLogin generateAuthorizationParams generateAuthorizationUrl
         stringify delegatedAuthConfig clientId homeserverUrl identityServerUrl window))
       = storeAuthorizationParams stringify (generateAuthorizationParams (w_origin window))
           delegatedAuthConfig clientId homeserverUrl identityServerUrl (w_sessionStorage window)"
    by (simp add: startOidcLogin_def Let_def split: sum.splits)
  show ?thesis
    unfolding w store_lookup using s by simp
qed
theorem completeOidcLogin_leaves_storage_witness:
  "snd (completeOidcLogin JSON_parse sampleGrant sampleStorage sampleQuery) = sampleStorage
   \<and> completeOidcLogin JSON_parse sampleGrant
        (snd (completeOidcLogin JSON_parse sampleGrant sampleStorage sampleQuery)) sampleQuery
       = completeOidcLogin JSON_parse sampleGrant sampleStorage sampleQuery"
  using completeOidcLogin_leaves_storage[of JSON_parse sampleGrant sampleStorage sampleQuery]
  by blast

section \<open>Properties of the session lock\<close>

text \<open>
  Claim C1 (mutual exclusion under clean sequential use). For every poll interval and
  every sequence of rounds of distinct instances, each started after the one before it
  has shut down cleanly, every state the system passes through has at most one holder of
  the lock, every instance started so far has resolved \<^verbatim>\<open>acquire\<close> with true, and no
  \<^verbatim>\<open>onSuperseded\<close> was called. And in any state whose store holds neither a LockRecord nor
  a RequestRecord, an instance that calls \<^verbatim>\<open>acquire\<close> resolves with true.
\<close>

theorem clean_sequential_use:
  "(distinct (map fst rounds) \<longrightarrow>
      (\<forall>t \<in> set (trace P (cleanRounds rounds) initialSystem). usedProperly t))
   \<and> (lockRecord (store s) = None \<and> requestRecord (store s) = None \<longrightarrow>
        acquireResult (instanceOf (acquire P i d s) i) = Some True)"
proof (intro conjI impI)
  assume "distinct (map fst rounds)"
  then show "\<forall>t \<in> set (trace P (cleanRounds rounds) initialSystem). usedProperly t"
    by (rule clean_rounds) (simp_all add: settled_initialSystem, simp add: initialSystem_def)
next
  assume "lockRecord (store s) = None \<and> requestRecord (store s) = None"
  then show "acquireResult (instanceOf (acquire P i d s) i) = Some True"
    by (simp add: fresh_start)
qed
theorem clean_sequential_use_witness:
  "distinct (map fst sampleRounds)
   \<and> list_all usedProperly (trace 1 (cleanRounds sampleRounds) initialSystem)
   \<and> lockRecord (store initialSystem) = None \<and> requestRecord (store initialSystem) = None
   \<and> acquireResult (instanceOf (acquire 1 7 0 initialSystem) 7) = Some True"
proof -
  have d: "distinct (map fst sampleRounds)"
    by (simp add: sampleRounds_def)
  have e: "lockRecord (store initialSystem) = None \<and> requestRecord (store initialSystem) = None"
    by (simp add: initialSystem_def)
  note t = clean_sequential_use[of sampleRounds 1 initialSystem 7 0]
  from t d have "\<forall>t \<in> set (trace 1 (cleanRounds sampleRounds) initialSystem). usedProperly t"
    by blast
  then have l: "list_all usedProperly (trace 1 (cleanRounds sampleRounds) initialSystem)"
    by (simp add: list_all_iff)
  from t e have "acquireResult (instanceOf (acquire 1 7 0 initialSystem) 7) = Some True"
    by blast
  with d e l show ?thesis by blast
qed

end
